theory Spec2Isabelle
  imports Complex_Main "HOL-Library.Char_ord" "HOL-Library.List_Lexorder"
begin

section \<open>Exceptions, the component and the outside world\<close>

text \<open>
  The script \<^verbatim>\<open>arlo-lapse.py\<close> is one class, \<^verbatim>\<open>ArloLapse\<close>, whose three methods are
  run in sequence by the main block.  Every exception class the code can meet is a
  constructor of \<open>error\<close>; all of them derive from Python's \<^verbatim>\<open>Exception\<close>.
  \<open>TimeoutError\<close> is \<^verbatim>\<open>timeout_decorator.TimeoutError\<close>, \<open>ServiceError\<close> stands for
  whatever else the camera service library or the image library raises.
\<close>

datatype error =
    ValueError
  | AttributeError
  | TimeoutError
  | ZeroDivisionError
  | OverflowError
  | IndexError
  | ServiceError string

datatype level = INFO | DEBUG | WARNING

text \<open>
  The attributes of an \<^verbatim>\<open>ArloLapse\<close> object, as the class docstring lists them.  The
  retention is a whole number of hours, as the default is; the lapse duration is a
  rational number.
\<close>

record arlo_lapse =
  username :: string
  password :: string
  camera_names :: "string list"
  lapse_path :: string
  snapshot_path :: string
  purge_duration_hours :: int
  lapse_duration :: rat

datatype call =
    Login string string
  | GetDevices string
  | TriggerFullFrameSnapshot string
  | DownloadSnapshot string string

text \<open>
  What the script acts on: the paths that exist (in directory-listing order, each under
  the spelling the script uses for it), the lines sent to the logger, what \<^verbatim>\<open>print\<close>
  wrote, the calls made to the camera service, the animations handed to
  \<^verbatim>\<open>imageio.mimwrite\<close> (output path, frames, frame rate) and the shell commands run.
\<close>

record world =
  files :: "string list"
  logged :: "(level \<times> string) list"
  printed :: "error list"
  calls :: "call list"
  encoded :: "(string \<times> string list \<times> rat) list"
  commands :: "string list"

definition logger :: "level \<Rightarrow> string \<Rightarrow> world \<Rightarrow> world" where
  "logger lv msg w = w\<lparr>logged := logged w @ [(lv, msg)]\<rparr>"

definition os_remove :: "string \<Rightarrow> world \<Rightarrow> world" where
  "os_remove file w = w\<lparr>files := filter (\<lambda>f. f \<noteq> file) (files w)\<rparr>"

definition write_file :: "string \<Rightarrow> world \<Rightarrow> world" where
  "write_file file w = (if file \<in> set (files w) then w else w\<lparr>files := files w @ [file]\<rparr>)"

text \<open>
  A \<^verbatim>\<open>for\<close> loop whose body may raise: the exception leaves the loop at once, and the
  world is the one the body had reached.
\<close>

fun for_each :: "('a \<Rightarrow> world \<Rightarrow> world \<times> error option) \<Rightarrow> 'a list \<Rightarrow> world \<Rightarrow> world \<times> error option" where
  "for_each body [] w = (w, None)"
| "for_each body (x # xs) w =
     (case body x w of
        (w', Some e) \<Rightarrow> (w', Some e)
      | (w', None) \<Rightarrow> for_each body xs w')"

section \<open>Library functions the script calls\<close>

subsection \<open>Character classes\<close>

definition is_digit :: "char \<Rightarrow> bool" where
  "is_digit c \<longleftrightarrow> CHR ''0'' \<le> c \<and> c \<le> CHR ''9''"

definition is_word :: "char \<Rightarrow> bool" where
  "is_word c \<longleftrightarrow> (CHR ''a'' \<le> c \<and> c \<le> CHR ''z'') \<or> (CHR ''A'' \<le> c \<and> c \<le> CHR ''Z'') \<or> c = CHR ''_''"

definition digit_val :: "char \<Rightarrow> nat" where
  "digit_val c = of_char c - 48"

definition rng :: "char \<Rightarrow> char \<Rightarrow> char \<Rightarrow> bool" where
  "rng lo hi c \<longleftrightarrow> lo \<le> c \<and> c \<le> hi"

subsection \<open>\<^verbatim>\<open>re.search(r'([a-zA-Z_]+)([0-9]+)', file).group(2)\<close>\<close>

text \<open>
  The leftmost match of the pattern starts at the first run of word characters that is
  followed by a digit; both groups are greedy, so group 2 is the whole run of digits
  that starts there.  \<open>None\<close> is Python's \<^verbatim>\<open>None\<close>: no match.
\<close>

fun re_search_from :: "bool \<Rightarrow> string \<Rightarrow> string option" where
  "re_search_from prev [] = None"
| "re_search_from prev (c # cs) =
     (if prev \<and> is_digit c then Some (takeWhile is_digit (c # cs))
      else re_search_from (is_word c) cs)"

definition re_search_group2 :: "string \<Rightarrow> string option" where
  "re_search_group2 file = re_search_from False file"

subsection \<open>\<^verbatim>\<open>datetime\<close>\<close>

text \<open>
  A naive \<^verbatim>\<open>datetime\<close> is modelled by the number of microseconds since
  0001-01-01T00:00:00, the order Python compares them in.  The calendar functions are
  those of the standard library's \<^verbatim>\<open>datetime\<close> module.
\<close>

type_synonym datetime = int

definition is_leap :: "nat \<Rightarrow> bool" where
  "is_leap year \<longleftrightarrow> year mod 4 = 0 \<and> (year mod 100 \<noteq> 0 \<or> year mod 400 = 0)"

definition days_before_year :: "nat \<Rightarrow> nat" where
  "days_before_year year = (let y = year - 1 in y * 365 + y div 4 - y div 100 + y div 400)"

definition days_in_month :: "nat \<Rightarrow> nat \<Rightarrow> nat" where
  "days_in_month year month =
     (if month = 2 \<and> is_leap year then 29
      else [0, 31, 28, 31, 30, 31, 30, 31, 31, 30, 31, 30, 31] ! month)"

definition days_before_month :: "nat \<Rightarrow> nat \<Rightarrow> nat" where
  "days_before_month year month =
     [0, 0, 31, 59, 90, 120, 151, 181, 212, 243, 273, 304, 334] ! month
       + (if 2 < month \<and> is_leap year then 1 else 0)"

definition ymd2ord :: "nat \<Rightarrow> nat \<Rightarrow> nat \<Rightarrow> nat" where
  "ymd2ord year month day = days_before_year year + days_before_month year month + day"

definition max_datetime :: datetime where
  "max_datetime = 3652059 * 86400 * 1000000 - 1"

text \<open>
  The constructor \<^verbatim>\<open>datetime(year, month, day, hour, minute, second)\<close>, with its range
  checks (\<^verbatim>\<open>MINYEAR = 1\<close>, \<^verbatim>\<open>MAXYEAR = 9999\<close>).
\<close>

definition mk_datetime :: "nat \<Rightarrow> nat \<Rightarrow> nat \<Rightarrow> nat \<Rightarrow> nat \<Rightarrow> nat \<Rightarrow> error + datetime" where
  "mk_datetime year month day hour minute second =
     (if year < 1 \<or> 9999 < year \<or> month < 1 \<or> 12 < month
         \<or> day < 1 \<or> days_in_month year month < day
         \<or> 23 < hour \<or> 59 < minute \<or> 59 < second
      then Inl ValueError
      else Inr (((int (ymd2ord year month day) - 1) * 86400
                   + int hour * 3600 + int minute * 60 + int second) * 1000000))"

text \<open>
  \<^verbatim>\<open>now - datetime.timedelta(hours=h)\<close> for an integral \<open>h\<close>: exact, and an
  \<^verbatim>\<open>OverflowError\<close> when the result is no \<^verbatim>\<open>datetime\<close> (a \<^verbatim>\<open>timedelta\<close> too large to
  build raises the same class).
\<close>

definition minus_hours :: "datetime \<Rightarrow> int \<Rightarrow> error + datetime" where
  "minus_hours now h =
     (let r = now - h * 3600 * 1000000
      in if 0 \<le> r \<and> r \<le> max_datetime then Inr r else Inl OverflowError)"

subsection \<open>\<^verbatim>\<open>datetime.strptime(s, '%Y%m%d%H%M%S')\<close>\<close>

text \<open>
  \<^verbatim>\<open>strptime\<close> turns the format into the regular expression
  \<^verbatim>\<open>(\d\d\d\d)(1[0-2]|0[1-9]|[1-9])(3[0-1]|[1-2]\d|0[1-9]|[1-9]| [1-9])(2[0-3]|[0-1]\d|\d)([0-5]\d|\d)(6[0-1]|[0-5]\d|\d)\<close>
  and matches it at the start of the string.  Each directive below lists its
  alternatives' matches in the order the backtracking matcher tries them, as pairs of
  the number read and the rest of the string.  The argument here is always group 2 of
  the pattern above, so \<^verbatim>\<open>\d\<close> is an ASCII digit.
\<close>

definition one_char :: "(char \<Rightarrow> bool) \<Rightarrow> string \<Rightarrow> (nat \<times> string) list" where
  "one_char P s = (case s of a # r \<Rightarrow> if P a then [(digit_val a, r)] else [] | [] \<Rightarrow> [])"

definition two_chars :: "(char \<Rightarrow> bool) \<Rightarrow> (char \<Rightarrow> bool) \<Rightarrow> string \<Rightarrow> (nat \<times> string) list" where
  "two_chars P Q s =
     (case s of
        a # b # r \<Rightarrow> if P a \<and> Q b then [(10 * digit_val a + digit_val b, r)] else []
      | _ \<Rightarrow> [])"

definition space_char :: "(char \<Rightarrow> bool) \<Rightarrow> string \<Rightarrow> (nat \<times> string) list" where
  "space_char Q s =
     (case s of
        a # b # r \<Rightarrow> if a = CHR '' '' \<and> Q b then [(digit_val b, r)] else []
      | _ \<Rightarrow> [])"

definition dir_Y :: "string \<Rightarrow> (nat \<times> string) list" where
  "dir_Y s =
     (case s of
        a # b # c # d # r \<Rightarrow>
          if is_digit a \<and> is_digit b \<and> is_digit c \<and> is_digit d
          then [(1000 * digit_val a + 100 * digit_val b + 10 * digit_val c + digit_val d, r)]
          else []
      | _ \<Rightarrow> [])"

definition dir_m :: "string \<Rightarrow> (nat \<times> string) list" where
  "dir_m s = two_chars (\<lambda>c. c = CHR ''1'') (rng CHR ''0'' CHR ''2'') s
           @ two_chars (\<lambda>c. c = CHR ''0'') (rng CHR ''1'' CHR ''9'') s
           @ one_char (rng CHR ''1'' CHR ''9'') s"

definition dir_d :: "string \<Rightarrow> (nat \<times> string) list" where
  "dir_d s = two_chars (\<lambda>c. c = CHR ''3'') (rng CHR ''0'' CHR ''1'') s
           @ two_chars (rng CHR ''1'' CHR ''2'') is_digit s
           @ two_chars (\<lambda>c. c = CHR ''0'') (rng CHR ''1'' CHR ''9'') s
           @ one_char (rng CHR ''1'' CHR ''9'') s
           @ space_char (rng CHR ''1'' CHR ''9'') s"

definition dir_H :: "string \<Rightarrow> (nat \<times> string) list" where
  "dir_H s = two_chars (\<lambda>c. c = CHR ''2'') (rng CHR ''0'' CHR ''3'') s
           @ two_chars (rng CHR ''0'' CHR ''1'') is_digit s
           @ one_char is_digit s"

definition dir_M :: "string \<Rightarrow> (nat \<times> string) list" where
  "dir_M s = two_chars (rng CHR ''0'' CHR ''5'') is_digit s
           @ one_char is_digit s"

definition dir_S :: "string \<Rightarrow> (nat \<times> string) list" where
  "dir_S s = two_chars (\<lambda>c. c = CHR ''6'') (rng CHR ''0'' CHR ''1'') s
           @ two_chars (rng CHR ''0'' CHR ''5'') is_digit s
           @ one_char is_digit s"

text \<open>All matches of the whole expression, the one the matcher returns first.\<close>

definition format_matches :: "string \<Rightarrow> ((nat \<times> nat \<times> nat \<times> nat \<times> nat \<times> nat) \<times> string) list" where
  "format_matches s =
     [((y, m, d, h, mi, se), r6).
        (y, r1) \<leftarrow> dir_Y s, (m, r2) \<leftarrow> dir_m r1, (d, r3) \<leftarrow> dir_d r2,
        (h, r4) \<leftarrow> dir_H r3, (mi, r5) \<leftarrow> dir_M r4, (se, r6) \<leftarrow> dir_S r5]"

text \<open>
  No match, text left over after the match, and a field out of range (year 0, 30
  February, second 60) are all a \<^verbatim>\<open>ValueError\<close>.
\<close>

definition strptime :: "string \<Rightarrow> error + datetime" where
  "strptime s =
     (case format_matches s of
        [] \<Rightarrow> Inl ValueError
      | ((y, m, d, h, mi, se), rest) # _ \<Rightarrow>
          if rest \<noteq> [] then Inl ValueError else mk_datetime y m d h mi se)"

subsection \<open>\<^verbatim>\<open>glob.glob(prefix + '*.jpg')\<close>\<close>

text \<open>
  \<^verbatim>\<open>glob.has_magic\<close>: the text holds one of the pattern characters \<^verbatim>\<open>*\<close>, \<^verbatim>\<open>?\<close> and \<^verbatim>\<open>[\<close>.
\<close>

definition has_magic :: "string \<Rightarrow> bool" where
  "has_magic s \<longleftrightarrow> (\<exists>c\<in>set s. c = CHR ''*'' \<or> c = CHR ''?'' \<or> c = CHR ''['')"

text \<open>
  A pattern character in the prefix is read as part of the pattern: \<^verbatim>\<open>./raw/Cam[1]*.jpg\<close>
  matches \<^verbatim>\<open>./raw/Cam1_x.jpg\<close> and not \<^verbatim>\<open>./raw/Cam[1]_x.jpg\<close>.  Which paths are matched
  for such a prefix is not modelled: \<open>magic_glob\<close> is a relation of which nothing is
  known, so that what is proved of \<open>glob_match\<close> holds whatever \<^verbatim>\<open>glob\<close> matches there.
\<close>

definition magic_glob :: "string \<Rightarrow> string \<Rightarrow> bool" where
  "magic_glob = undefined"

text \<open>
  Whether an existing path is among the matches of \<^verbatim>\<open>prefix + '*.jpg'\<close>.  The pattern ends
  in the literal \<^verbatim>\<open>.jpg\<close> whatever the prefix is, so every match ends in it.  For a prefix
  without pattern characters the path is the prefix, then any text without a slash, then
  \<^verbatim>\<open>.jpg\<close>, and a name that starts with a dot is only matched by a pattern whose last
  component starts with one.
\<close>

definition glob_match :: "string \<Rightarrow> string \<Rightarrow> bool" where
  "glob_match prefix path \<longleftrightarrow>
     (let n = length prefix;
          k = length path;
          mid = take (k - 4 - n) (drop n path);
          base = rev (takeWhile (\<lambda>c. c \<noteq> CHR ''/'') (rev prefix))
      in drop (k - 4) path = ''.jpg''
         \<and> (if has_magic prefix then magic_glob prefix path
            else n + 4 \<le> k \<and> take n path = prefix
                 \<and> CHR ''/'' \<notin> set mid
                 \<and> (base = [] \<longrightarrow> mid \<noteq> [] \<and> hd mid \<noteq> CHR ''.'')))"

text \<open>The matches, in listing order.\<close>

definition glob_jpg :: "string list \<Rightarrow> string \<Rightarrow> string list" where
  "glob_jpg fs prefix = filter (glob_match prefix) fs"

section \<open>\<^verbatim>\<open>ArloLapse.purge_snapshots\<close>\<close>

text \<open>
  The date the purge reads off a path: group 2 of the search, parsed.  A path without a
  match makes \<^verbatim>\<open>match.group\<close> raise \<^verbatim>\<open>AttributeError\<close>.
\<close>

definition snapshot_date :: "string \<Rightarrow> error + datetime" where
  "snapshot_date file =
     (case re_search_group2 file of
        None \<Rightarrow> Inl AttributeError
      | Some g \<Rightarrow> strptime g)"

text \<open>The body of the inner loop (lines 153 to 157).\<close>

definition purge_file :: "arlo_lapse \<Rightarrow> datetime \<Rightarrow> string \<Rightarrow> world \<Rightarrow> world \<times> error option" where
  "purge_file self now file w =
     (case snapshot_date file of
        Inl e \<Rightarrow> (w, Some e)
      | Inr date \<Rightarrow>
          (case minus_hours now (purge_duration_hours self) of
             Inl e \<Rightarrow> (w, Some e)
           | Inr threshold \<Rightarrow>
               if date < threshold
               then (os_remove file (logger DEBUG (''Purging '' @ file) w), None)
               else (w, None)))"

text \<open>The body of the outer loop (lines 148 to 157).\<close>

definition purge_camera :: "arlo_lapse \<Rightarrow> datetime \<Rightarrow> string \<Rightarrow> world \<Rightarrow> world \<times> error option" where
  "purge_camera self now camera_name w =
     for_each (purge_file self now) (glob_jpg (files w) (snapshot_path self @ camera_name)) w"

definition purge_snapshots :: "arlo_lapse \<Rightarrow> datetime \<Rightarrow> world \<Rightarrow> world \<times> error option" where
  "purge_snapshots self now w =
     for_each (purge_camera self now) (camera_names self) (logger INFO ''Purging Snapshots...'' w)"

text \<open>
  What the inner loop decides for one path, apart from the world: the exception it
  raises, or whether it removes the file.
\<close>

definition purge_verdict :: "arlo_lapse \<Rightarrow> datetime \<Rightarrow> string \<Rightarrow> error + bool" where
  "purge_verdict self now file =
     (case snapshot_date file of
        Inl e \<Rightarrow> Inl e
      | Inr date \<Rightarrow>
          (case minus_hours now (purge_duration_hours self) of
             Inl e \<Rightarrow> Inl e
           | Inr threshold \<Rightarrow> Inr (date < threshold)))"

section \<open>\<^verbatim>\<open>ArloLapse.make_lapse\<close>\<close>

text \<open>\<^verbatim>\<open>str(n)\<close> for a length, and \<^verbatim>\<open>sep.join(xs)\<close>.\<close>

fun str :: "nat \<Rightarrow> string" where
  "str n = (if n < 10 then [char_of (48 + n)] else str (n div 10) @ [char_of (48 + n mod 10)])"

declare str.simps [simp del]

fun join :: "string \<Rightarrow> string list \<Rightarrow> string" where
  "join sep [] = []"
| "join sep [x] = x"
| "join sep (x # y # ys) = x @ sep @ join sep (y # ys)"

text \<open>
  \<^verbatim>\<open>imageio.imread\<close> is a parameter: for each path, the exception reading it raises, if
  any.  A frame is identified by the path it was read from.  \<^verbatim>\<open>imageio.mimwrite\<close> leaves
  its output file behind and is recorded with its arguments; \<^verbatim>\<open>os.system\<close> never raises,
  and the shell's redirection leaves the final file behind.
\<close>

definition mimwrite :: "string \<Rightarrow> string list \<Rightarrow> rat \<Rightarrow> world \<Rightarrow> world" where
  "mimwrite output_file images fps w =
     write_file output_file (w\<lparr>encoded := encoded w @ [(output_file, images, fps)]\<rparr>)"

definition os_system :: "string \<Rightarrow> string \<Rightarrow> world \<Rightarrow> world" where
  "os_system command target w = write_file target (w\<lparr>commands := commands w @ [command]\<rparr>)"

definition read_images :: "(string \<Rightarrow> error option) \<Rightarrow> string list \<Rightarrow> world \<Rightarrow> world \<times> error option" where
  "read_images imread fs w = for_each (\<lambda>file w'. (w', imread file)) fs w"

text \<open>
  The body of the loop (lines 165 to 179).  \<^verbatim>\<open>sorted\<close> orders the paths as strings;
  \<^verbatim>\<open>num_files/self.lapse_duration\<close> is the true quotient (Python rounds it to the nearest
  double) and raises \<^verbatim>\<open>ZeroDivisionError\<close> on a zero divisor.
\<close>

definition lapse_camera :: "arlo_lapse \<Rightarrow> (string \<Rightarrow> error option) \<Rightarrow> string \<Rightarrow> world \<Rightarrow> world \<times> error option" where
  "lapse_camera self imread camera_name w =
     (let fs = sort (glob_jpg (files w) (snapshot_path self @ camera_name));
          num_files = length fs;
          w1 = logger DEBUG (''Found '' @ str num_files @ '' images for '' @ camera_name) w
      in if 0 < num_files then
           if lapse_duration self = 0 then (w1, Some ZeroDivisionError)
           else
             let fps = of_nat num_files / lapse_duration self
             in (case read_images imread fs w1 of
                   (w2, Some e) \<Rightarrow> (w2, Some e)
                 | (w2, None) \<Rightarrow>
                     let output_file = snapshot_path self @ camera_name @ ''.gif'';
                         final_file = lapse_path self @ camera_name @ ''.gif'';
                         w3 = mimwrite output_file fs fps w2;
                         command = ''gifsicle -O3 --colors 128 --resize-width 512 ''
                                     @ output_file @ '' > '' @ final_file
                     in (os_system command final_file w3, None))
         else (w1, None))"

definition make_lapse :: "arlo_lapse \<Rightarrow> (string \<Rightarrow> error option) \<Rightarrow> world \<Rightarrow> world \<times> error option" where
  "make_lapse self imread w =
     for_each (lapse_camera self imread) (camera_names self) (logger INFO ''Making Time Lapses...'' w)"

section \<open>\<^verbatim>\<open>ArloLapse.__init__\<close>\<close>

text \<open>
  The document \<^verbatim>\<open>yaml.load\<close> returned, as a flat typed mapping: \<open>None\<close> is a key that
  is absent.
\<close>

record config_doc =
  cfg_username :: "string option"
  cfg_password :: "string option"
  cfg_camera_names :: "string list option"
  cfg_lapse_path :: "string option"
  cfg_snapshot_path :: "string option"
  cfg_purge_duration_hours :: "int option"
  cfg_lapse_duration :: "rat option"

definition LAPSE_PATH :: string where
  "LAPSE_PATH = ''./lapse/''"

definition SNAPSHOT_PATH :: string where
  "SNAPSHOT_PATH = ''./raw/''"

definition PURGE_DURATION_HOURS :: int where
  "PURGE_DURATION_HOURS = 24"

definition LAPSE_DURATION :: rat where
  "LAPSE_DURATION = 20"

definition dict_get :: "'a option \<Rightarrow> 'a \<Rightarrow> 'a" where
  "dict_get v dflt = (case v of None \<Rightarrow> dflt | Some x \<Rightarrow> x)"

definition init :: "config_doc \<Rightarrow> world \<Rightarrow> world \<times> (error + arlo_lapse)" where
  "init cfg_yaml w =
     (let w1 = logger INFO ''Initializing...'' w
      in case cfg_username cfg_yaml of
           None \<Rightarrow> (w1, Inl ValueError)
         | Some u \<Rightarrow>
             (case cfg_password cfg_yaml of
                None \<Rightarrow> (w1, Inl ValueError)
              | Some p \<Rightarrow>
                  (w1, Inr \<lparr>username = u, password = p,
                     camera_names = dict_get (cfg_camera_names cfg_yaml) [],
                     lapse_path = dict_get (cfg_lapse_path cfg_yaml) LAPSE_PATH,
                     snapshot_path = dict_get (cfg_snapshot_path cfg_yaml) SNAPSHOT_PATH,
                     purge_duration_hours = dict_get (cfg_purge_duration_hours cfg_yaml) PURGE_DURATION_HOURS,
                     lapse_duration = dict_get (cfg_lapse_duration cfg_yaml) LAPSE_DURATION\<rparr>)))"

section \<open>\<^verbatim>\<open>ArloLapse.get_snapshots\<close>\<close>

text \<open>
  The camera service as the run meets it: what logging in and the two device listings
  answer, and for each camera its name and what the snapshot request and the download
  will answer (\<open>Inl\<close> an exception, \<open>Inr None\<close> a null URL).  Every camera entry carries
  its \<^verbatim>\<open>deviceName\<close>.
\<close>

record camera =
  deviceName :: string
  snapshot_reply :: "error + string option"
  download_reply :: "error option"

record service =
  login_reply :: "error option"
  basestations :: "error + string list"
  cameras :: "error + camera list"

definition call_service :: "call \<Rightarrow> world \<Rightarrow> world" where
  "call_service c w = w\<lparr>calls := calls w @ [c]\<rparr>"

definition replace :: "char \<Rightarrow> char \<Rightarrow> string \<Rightarrow> string" where
  "replace old new s = map (\<lambda>c. if c = old then new else c) s"

text \<open>
  \<^verbatim>\<open>get_snapshot_url\<close> under its 60 second timeout: the reply, where the timeout is the
  reply \<open>Inl TimeoutError\<close>.
\<close>

definition get_snapshot_url :: "camera \<Rightarrow> world \<Rightarrow> world \<times> (error + string option)" where
  "get_snapshot_url cam w = (call_service (TriggerFullFrameSnapshot (deviceName cam)) w, snapshot_reply cam)"

text \<open>
  The body of the second loop (lines 121 to 132).  The inner handler catches
  \<open>TimeoutError\<close> from anywhere in its \<^verbatim>\<open>try\<close> block and nothing else; \<^verbatim>\<open>basestations[0]\<close>
  is evaluated inside the block.
\<close>

definition snapshot_camera :: "arlo_lapse \<Rightarrow> string list \<Rightarrow> string \<Rightarrow> camera \<Rightarrow> world \<Rightarrow> world \<times> error option" where
  "snapshot_camera self bs now_str cam w =
     (let camera_name = replace CHR '' '' CHR ''_'' (deviceName cam)
      in if camera_name \<in> set (camera_names self) then
           let w1 = logger DEBUG (''Getting snapshot for '' @ camera_name) w;
               snapshot_file = snapshot_path self @ camera_name @ ''_'' @ now_str @ ''.jpg'';
               (w2, r) =
                 (case bs of
                    [] \<Rightarrow> (w1, Some IndexError)
                  | b # _ \<Rightarrow>
                      (case get_snapshot_url cam w1 of
                         (w', Inl e) \<Rightarrow> (w', Some e)
                       | (w', Inr None) \<Rightarrow>
                           (logger WARNING (''Returned None URL for '' @ camera_name) w', None)
                       | (w', Inr (Some snapshot_url)) \<Rightarrow>
                           (case download_reply cam of
                              Some e \<Rightarrow> (call_service (DownloadSnapshot snapshot_url snapshot_file) w', Some e)
                            | None \<Rightarrow>
                                (write_file snapshot_file
                                   (call_service (DownloadSnapshot snapshot_url snapshot_file) w'), None))))
           in if r = Some TimeoutError then (logger WARNING (''Timeout '' @ camera_name) w2, None)
              else (w2, r)
         else (w, None))"

text \<open>
  The outer \<^verbatim>\<open>try\<close> block (lines 98 to 132): the component with its camera list as
  assigned so far, the world, and the exception that left the block, if any.  The order
  of \<^verbatim>\<open>list(set(a) & set(b))\<close> is not specified by Python; the model lists the common
  names once each, in the configured order.
\<close>

definition get_snapshots_try :: "arlo_lapse \<Rightarrow> service \<Rightarrow> string \<Rightarrow> world \<Rightarrow> (arlo_lapse \<times> world) \<times> error option" where
  "get_snapshots_try self arlo now_str w =
     (let w1 = call_service (Login (username self) (password self)) w
      in case login_reply arlo of
           Some e \<Rightarrow> ((self, w1), Some e)
         | None \<Rightarrow>
             (let w2 = call_service (GetDevices ''basestation'') w1
              in case basestations arlo of
                   Inl e \<Rightarrow> ((self, w2), Some e)
                 | Inr bs \<Rightarrow>
                     (let w3 = call_service (GetDevices ''camera'') w2
                      in case cameras arlo of
                           Inl e \<Rightarrow> ((self, w3), Some e)
                         | Inr cams \<Rightarrow>
                             (let names = map (\<lambda>cam. replace CHR '' '' CHR ''_'' (deviceName cam)) cams;
                                  (self', w4) =
                                    (if camera_names self = []
                                     then (self\<lparr>camera_names := names\<rparr>,
                                           logger DEBUG ''No camera names given, getting from Arlo'' w3)
                                     else (self\<lparr>camera_names :=
                                                  remdups (filter (\<lambda>n. n \<in> set names) (camera_names self))\<rparr>,
                                           logger DEBUG ''Checking if given camera names are in Arlo'' w3));
                                  w5 = logger DEBUG (''Final list of cameras: '' @ join '', '' (camera_names self')) w4;
                                  (w6, r) = for_each (snapshot_camera self' bs now_str) cams w5
                              in ((self', w6), r)))))"

text \<open>
  The method: the outer handler prints whatever exception reaches it.  The last
  component is the exception that leaves the method.
\<close>

definition get_snapshots :: "arlo_lapse \<Rightarrow> service \<Rightarrow> string \<Rightarrow> world \<Rightarrow> (arlo_lapse \<times> world) \<times> error option" where
  "get_snapshots self arlo now_str w =
     (case get_snapshots_try self arlo now_str (logger INFO ''Getting snapshots...'' w) of
        ((self', w'), Some e) \<Rightarrow> ((self', w'\<lparr>printed := printed w' @ [e]\<rparr>), None)
      | ((self', w'), None) \<Rightarrow> ((self', w'), None))"

section \<open>The main block\<close>

text \<open>
  One run: the loaded document, the service, the image reader, the two clock readings
  (the formatted one of the acquisition, the one of the purge) and the world.  An
  exception that leaves a method ends the run; \<open>main_after_snapshots\<close> is the block
  from the call of \<^verbatim>\<open>purge_snapshots\<close> on.
\<close>

definition main_after_snapshots :: "arlo_lapse \<Rightarrow> (string \<Rightarrow> error option) \<Rightarrow> datetime \<Rightarrow> world \<Rightarrow> world \<times> error option" where
  "main_after_snapshots arlo_gif imread now w =
     (case purge_snapshots arlo_gif now w of
        (w1, Some e) \<Rightarrow> (w1, Some e)
      | (w1, None) \<Rightarrow>
          (case make_lapse arlo_gif imread w1 of
             (w2, Some e) \<Rightarrow> (w2, Some e)
           | (w2, None) \<Rightarrow> (logger INFO ''Script complete.'' w2, None)))"

definition main :: "config_doc \<Rightarrow> service \<Rightarrow> (string \<Rightarrow> error option) \<Rightarrow> string \<Rightarrow> datetime \<Rightarrow> world \<Rightarrow> world \<times> error option" where
  "main cfg_yaml arlo imread now_str now w =
     (case init cfg_yaml w of
        (w1, Inl e) \<Rightarrow> (w1, Some e)
      | (w1, Inr arlo_gif) \<Rightarrow>
          (case get_snapshots arlo_gif arlo now_str w1 of
             ((arlo_gif', w2), Some e) \<Rightarrow> (w2, Some e)
           | ((arlo_gif', w2), None) \<Rightarrow> main_after_snapshots arlo_gif' imread now w2))"

section \<open>Auxiliary notions\<close>

subsection \<open>The purge on the list of paths\<close>

text \<open>
  What the purge does to the list of paths depends on the verdicts \<open>v\<close> alone.  In one
  camera's loop over the matched paths \<open>fl\<close>, the paths removed are those with the verdict
  \<open>Inr True\<close> before the first path whose verdict is an exception; that exception, if
  there is one, ends the loop.  \<open>cams_run\<close> is the outer loop, over the cameras' patterns.
  A list is \<open>quiet\<close> for a pattern when the loop over it would remove nothing and raise
  nothing.
\<close>

definition doomed :: "(string \<Rightarrow> error + bool) \<Rightarrow> string list \<Rightarrow> string list" where
  "doomed v fl = filter (\<lambda>f. v f = Inr True) (takeWhile (\<lambda>f. \<not> isl (v f)) fl)"

definition loop_error :: "(string \<Rightarrow> error + bool) \<Rightarrow> string list \<Rightarrow> error option" where
  "loop_error v fl = (case dropWhile (\<lambda>f. \<not> isl (v f)) fl of [] \<Rightarrow> None | bad # _ \<Rightarrow> Some (projl (v bad)))"

definition cam_files :: "(string \<Rightarrow> error + bool) \<Rightarrow> (string \<Rightarrow> bool) \<Rightarrow> string list \<Rightarrow> string list" where
  "cam_files v m F = filter (\<lambda>f. f \<notin> set (doomed v (filter m F))) F"

definition cam_error :: "(string \<Rightarrow> error + bool) \<Rightarrow> (string \<Rightarrow> bool) \<Rightarrow> string list \<Rightarrow> error option" where
  "cam_error v m F = loop_error v (filter m F)"

fun cams_run :: "(string \<Rightarrow> error + bool) \<Rightarrow> (string \<Rightarrow> bool) list \<Rightarrow> string list \<Rightarrow> string list \<times> error option" where
  "cams_run v [] F = (F, None)"
| "cams_run v (m # ms) F =
     (case cam_error v m F of
        Some e \<Rightarrow> (cam_files v m F, Some e)
      | None \<Rightarrow> cams_run v ms (cam_files v m F))"

definition quiet :: "(string \<Rightarrow> error + bool) \<Rightarrow> (string \<Rightarrow> bool) \<Rightarrow> string list \<Rightarrow> bool" where
  "quiet v m F \<longleftrightarrow> (\<forall>f\<in>set F. m f \<longrightarrow> v f = Inr False)"

subsection \<open>The assembly and the acquisition\<close>

text \<open>
  The arguments of the encoder call for one camera; the names the service lists; the
  camera names \<^verbatim>\<open>get_snapshots\<close> assigns.
\<close>

definition lapse_entry :: "arlo_lapse \<Rightarrow> world \<Rightarrow> string \<Rightarrow> string \<times> string list \<times> rat" where
  "lapse_entry self w c =
     (snapshot_path self @ c @ ''.gif'',
      sort (glob_jpg (files w) (snapshot_path self @ c)),
      of_nat (length (glob_jpg (files w) (snapshot_path self @ c))) / lapse_duration self)"

definition discovered :: "camera list \<Rightarrow> string list" where
  "discovered cams = map (\<lambda>cam. replace CHR '' '' CHR ''_'' (deviceName cam)) cams"

definition effective :: "string list \<Rightarrow> string list \<Rightarrow> string list" where
  "effective configured names =
     (if configured = [] then names else remdups (filter (\<lambda>n. n \<in> set names) configured))"

text \<open>
  The world in which the second loop of \<^verbatim>\<open>get_snapshots\<close> starts, for the component \<open>self\<close>
  the method was called on and the component \<open>self'\<close> with the camera names assigned; the
  world after the snapshot request for one camera, and after the warning that follows
  it; and the outer handler, applied to what the loop returned.
\<close>

definition started :: "arlo_lapse \<Rightarrow> arlo_lapse \<Rightarrow> world \<Rightarrow> world" where
  "started self self' w =
     logger DEBUG (''Final list of cameras: '' @ join '', '' (camera_names self'))
       (logger DEBUG (if camera_names self = [] then ''No camera names given, getting from Arlo''
                      else ''Checking if given camera names are in Arlo'')
          (call_service (GetDevices ''camera'')
             (call_service (GetDevices ''basestation'')
                (call_service (Login (username self) (password self))
                   (logger INFO ''Getting snapshots...'' w)))))"

definition requested :: "camera \<Rightarrow> world \<Rightarrow> world" where
  "requested cam w =
     call_service (TriggerFullFrameSnapshot (deviceName cam))
       (logger DEBUG (''Getting snapshot for '' @ replace CHR '' '' CHR ''_'' (deviceName cam)) w)"

definition warned :: "string \<Rightarrow> camera \<Rightarrow> world \<Rightarrow> world" where
  "warned msg cam w = logger WARNING (msg @ replace CHR '' '' CHR ''_'' (deviceName cam)) (requested cam w)"

definition caught :: "world \<times> error option \<Rightarrow> world" where
  "caught wr = (case snd wr of None \<Rightarrow> fst wr | Some e \<Rightarrow> (fst wr)\<lparr>printed := printed (fst wr) @ [e]\<rparr>)"

subsection \<open>The naming scheme of a still\<close>

text \<open>
  A still is named \<^verbatim>\<open><prefix><YYYYMMDDHHMMSS>.jpg\<close>, with the prefix
  \<^verbatim>\<open><snapshot_path><camera>_\<close>: fourteen digits that \<^verbatim>\<open>strptime\<close> accepts, and
  \<open>still_date\<close> is the date they give.  \<open>dec\<close> reads a string of digits as a number;
  \<open>eats s (v, r)\<close> says that a directive, on \<open>s\<close>, read either two characters as the number
  \<open>v\<close> or one character, and left \<open>r\<close>.
\<close>

fun dec :: "string \<Rightarrow> nat" where
  "dec [] = 0"
| "dec (c # cs) = digit_val c * 10 ^ length cs + dec cs"

definition eats :: "string \<Rightarrow> nat \<times> string \<Rightarrow> bool" where
  "eats s vr \<longleftrightarrow>
     (length s = length (snd vr) + 2 \<and> fst vr = dec (take 2 s) \<and> snd vr = drop 2 s)
     \<or> (length s = length (snd vr) + 1 \<and> snd vr = drop 1 s)"

definition still_date :: "string \<Rightarrow> string \<Rightarrow> error + datetime" where
  "still_date prefix path = strptime (take 14 (drop (length prefix) path))"

definition named_still :: "string \<Rightarrow> string \<Rightarrow> bool" where
  "named_still prefix path \<longleftrightarrow>
     length path = length prefix + 18 \<and> take (length prefix) path = prefix
     \<and> drop (length prefix + 14) path = ''.jpg''
     \<and> list_all is_digit (take 14 (drop (length prefix) path))
     \<and> \<not> isl (still_date prefix path)"

section \<open>Sample inputs\<close>

text \<open>
  The component of the spec's scenario (camera \<^verbatim>\<open>Front_Door\<close>, 24 hours, 20 seconds), a
  world with given paths and nothing else, stills at 00:00, 00:05 and 00:10 of
  2020-01-01, a service with one camera that times out, one that gives no URL and one
  that works, and a document without a password.
\<close>

definition demo_self :: arlo_lapse where
  "demo_self = \<lparr>username = ''user'', password = ''secret'', camera_names = [''Front_Door''],
     lapse_path = ''./lapse/'', snapshot_path = ''./raw/'', purge_duration_hours = 24,
     lapse_duration = 20\<rparr>"

definition fresh_world :: "string list \<Rightarrow> world" where
  "fresh_world fs = \<lparr>files = fs, logged = [], printed = [], calls = [], encoded = [], commands = []\<rparr>"

definition demo_files :: "string list" where
  "demo_files = [''./raw/Front_Door_20200101000000.jpg'', ''./raw/Front_Door_20200101000500.jpg'',
     ''./raw/Front_Door_20200101001000.jpg'']"

definition shuffled_files :: "string list" where
  "shuffled_files = [''./raw/Front_Door_20200101000500.jpg'', ''./raw/Front_Door_20200101001000.jpg'',
     ''./raw/Front_Door_20200101000000.jpg'']"

definition no_read_error :: "string \<Rightarrow> error option" where
  "no_read_error file = None"

definition cam_timeout :: camera where
  "cam_timeout = \<lparr>deviceName = ''Back Yard'', snapshot_reply = Inl TimeoutError, download_reply = None\<rparr>"

definition cam_null :: camera where
  "cam_null = \<lparr>deviceName = ''Garage'', snapshot_reply = Inr None, download_reply = None\<rparr>"

definition cam_ok :: camera where
  "cam_ok = \<lparr>deviceName = ''Front Door'', snapshot_reply = Inr (Some ''https://arlo.example/snap''),
     download_reply = None\<rparr>"

definition cam_broken :: camera where
  "cam_broken = \<lparr>deviceName = ''Back Yard'', snapshot_reply = Inl (ServiceError ''connection reset''),
     download_reply = None\<rparr>"

definition demo_service :: service where
  "demo_service = \<lparr>login_reply = None, basestations = Inr [''base''],
     cameras = Inr [cam_timeout, cam_null, cam_ok]\<rparr>"

definition demo_cfg :: config_doc where
  "demo_cfg = \<lparr>cfg_username = Some ''user'', cfg_password = None, cfg_camera_names = None,
     cfg_lapse_path = None, cfg_snapshot_path = None, cfg_purge_duration_hours = None,
     cfg_lapse_duration = None\<rparr>"

definition all_cameras_self :: arlo_lapse where
  "all_cameras_self = demo_self\<lparr>camera_names := [''Back_Yard'', ''Garage'', ''Front_Door'']\<rparr>"

definition malformed_files :: "string list" where
  "malformed_files = [''./raw/Front_Door_20200101000000.jpg'', ''./raw/Front_Door_2020010100.jpg'',
     ''./raw/Front_Door_20200101000100.jpg'']"

text \<open>
  A camera whose name ends in a digit, with the service that lists it and the component
  configured for it.  Two cameras of which one's name begins with the other's, with
  stills of both, and with stills of the longer-named one alone.
\<close>

definition cam1 :: camera where
  "cam1 = \<lparr>deviceName = ''Cam1'', snapshot_reply = Inr (Some ''https://arlo.example/snap''),
     download_reply = None\<rparr>"

definition cam1_service :: service where
  "cam1_service = \<lparr>login_reply = None, basestations = Inr [''base''], cameras = Inr [cam1]\<rparr>"

definition cam1_self :: arlo_lapse where
  "cam1_self = demo_self\<lparr>camera_names := [''Cam1'']\<rparr>"

definition overlap_self :: arlo_lapse where
  "overlap_self = demo_self\<lparr>camera_names := [''Front'', ''Front_Door'']\<rparr>"

definition overlap_files :: "string list" where
  "overlap_files = [''./raw/Front_20200101000500.jpg'', ''./raw/Front_Door_20200101000000.jpg'',
     ''./raw/Front_Door_20200101001000.jpg'']"

definition door_files :: "string list" where
  "door_files = [''./raw/Front_Door_20200101000000.jpg'', ''./raw/Front_Door_20200101001000.jpg'']"

text \<open>
  A run in which the request for the second of three cameras raises: the service, the
  document with both credentials and nothing else, the component as constructed from it
  and as \<^verbatim>\<open>get_snapshots\<close> leaves it, and the world after the acquisition and after the
  purge at 00:05 of 2020-01-02.  And a service that refuses the login.
\<close>

definition broken_service :: service where
  "broken_service = \<lparr>login_reply = None, basestations = Inr [''base''],
     cameras = Inr [cam_ok, cam_broken, cam_null]\<rparr>"

definition locked_service :: service where
  "locked_service = demo_service\<lparr>login_reply := Some (ServiceError ''bad credentials'')\<rparr>"

definition full_cfg :: config_doc where
  "full_cfg = demo_cfg\<lparr>cfg_password := Some ''secret''\<rparr>"

definition unnamed_self :: arlo_lapse where
  "unnamed_self = demo_self\<lparr>camera_names := []\<rparr>"

definition listed_self :: arlo_lapse where
  "listed_self = demo_self\<lparr>camera_names := [''Front_Door'', ''Back_Yard'', ''Garage'']\<rparr>"

definition after_acquisition :: world where
  "after_acquisition =
     \<lparr>files = [''./raw/Front_Door_20200101000000.jpg'', ''./raw/Front_Door_20200101000500.jpg'',
               ''./raw/Front_Door_20200101001000.jpg'', ''./raw/Front_Door_20200102000500.jpg''],
      logged = [(INFO, ''Initializing...''), (INFO, ''Getting snapshots...''),
                (DEBUG, ''No camera names given, getting from Arlo''),
                (DEBUG, ''Final list of cameras: Front_Door, Back_Yard, Garage''),
                (DEBUG, ''Getting snapshot for Front_Door''), (DEBUG, ''Getting snapshot for Back_Yard'')],
      printed = [ServiceError ''connection reset''],
      calls = [Login ''user'' ''secret'', GetDevices ''basestation'', GetDevices ''camera'',
               TriggerFullFrameSnapshot ''Front Door'',
               DownloadSnapshot ''https://arlo.example/snap'' ''./raw/Front_Door_20200102000500.jpg'',
               TriggerFullFrameSnapshot ''Back Yard''],
      encoded = [], commands = []\<rparr>"

definition after_purge :: world where
  "after_purge = after_acquisition
     \<lparr>files := [''./raw/Front_Door_20200101000500.jpg'',
               ''./raw/Front_Door_20200101001000.jpg'', ''./raw/Front_Door_20200102000500.jpg''],
      logged := logged after_acquisition @ [(INFO, ''Purging Snapshots...''),
                (DEBUG, ''Purging ./raw/Front_Door_20200101000000.jpg'')]\<rparr>"

section \<open>Lemmas\<close>

subsection \<open>Loops that may raise\<close>

lemma for_each_append:
  "for_each body (xs @ ys) w =
     (case for_each body xs w of
        (w', Some e) \<Rightarrow> (w', Some e)
      | (w', None) \<Rightarrow> for_each body ys w')"
  by (induction xs arbitrary: w) (auto split: prod.splits option.splits)

lemma for_each_error_decomp:
  "for_each body xs w = (w', Some e) \<Longrightarrow>
     \<exists>xs1 x xs2 w1. xs = xs1 @ x # xs2 \<and> for_each body xs1 w = (w1, None) \<and> body x w1 = (w', Some e)"
proof (induction xs arbitrary: w)
  case Nil
  then show ?case by simp
next
  case (Cons a xs)
  obtain w1 r where b: "body a w = (w1, r)" by (cases "body a w")
  show ?case
  proof (cases r)
    case None
    with Cons.prems b have "for_each body xs w1 = (w', Some e)" by simp
    from Cons.IH [OF this] obtain xs1 x xs2 w2 where
      d: "xs = xs1 @ x # xs2" "for_each body xs1 w1 = (w2, None)" "body x w2 = (w', Some e)"
      by blast
    have "a # xs = (a # xs1) @ x # xs2" using d(1) by simp
    moreover have "for_each body (a # xs1) w = (w2, None)" using b None d(2) by simp
    ultimately show ?thesis using d(3) by blast
  next
    case (Some e')
    with Cons.prems b have "w1 = w'" "e' = e" by simp_all
    then have "a # xs = [] @ a # xs" "for_each body [] w = (w, None)" "body a w = (w', Some e)"
      using b Some by simp_all
    then show ?thesis by blast
  qed
qed

subsection \<open>The purge, projected on the list of paths\<close>

lemma files_logger [simp]: "files (logger lv msg w) = files w"
  by (simp add: logger_def)

lemma files_os_remove [simp]: "files (os_remove file w) = filter (\<lambda>f. f \<noteq> file) (files w)"
  by (simp add: os_remove_def)

lemma purge_file_verdict:
  "purge_file self now file w =
     (case purge_verdict self now file of
        Inl e \<Rightarrow> (w, Some e)
      | Inr b \<Rightarrow> (if b then os_remove file (logger DEBUG (''Purging '' @ file) w) else w, None))"
  by (simp add: purge_file_def purge_verdict_def split: sum.splits)

lemma purge_files_proj:
  "files (fst (for_each (purge_file self now) fl w))
     = filter (\<lambda>f. f \<notin> set (doomed (purge_verdict self now) fl)) (files w)
   \<and> snd (for_each (purge_file self now) fl w) = loop_error (purge_verdict self now) fl"
proof (induction fl arbitrary: w)
  case Nil
  then show ?case by (simp add: doomed_def loop_error_def)
next
  case (Cons a fl)
  show ?case
  proof (cases "purge_verdict self now a")
    case (Inl e)
    then show ?thesis by (simp add: purge_file_verdict doomed_def loop_error_def)
  next
    case (Inr b)
    then show ?thesis
      using Cons.IH [of "os_remove a (logger DEBUG (''Purging '' @ a) w)"] Cons.IH [of w]
      by (auto simp add: purge_file_verdict doomed_def loop_error_def intro: filter_cong)
  qed
qed

lemma purge_camera_proj:
  "files (fst (purge_camera self now c w))
     = cam_files (purge_verdict self now) (glob_match (snapshot_path self @ c)) (files w)"
  "snd (purge_camera self now c w)
     = cam_error (purge_verdict self now) (glob_match (snapshot_path self @ c)) (files w)"
  by (simp_all add: purge_camera_def cam_files_def cam_error_def glob_jpg_def purge_files_proj)

lemma purge_cameras_proj:
  "files (fst (for_each (purge_camera self now) cs w))
     = fst (cams_run (purge_verdict self now) (map (\<lambda>c. glob_match (snapshot_path self @ c)) cs) (files w))
   \<and> snd (for_each (purge_camera self now) cs w)
     = snd (cams_run (purge_verdict self now) (map (\<lambda>c. glob_match (snapshot_path self @ c)) cs) (files w))"
proof (induction cs arbitrary: w)
  case Nil
  then show ?case by simp
next
  case (Cons c cs)
  obtain w1 r where b: "purge_camera self now c w = (w1, r)" by (cases "purge_camera self now c w")
  have f1: "files w1 = cam_files (purge_verdict self now) (glob_match (snapshot_path self @ c)) (files w)"
    using purge_camera_proj(1) [of self now c w] b by simp
  have r1: "r = cam_error (purge_verdict self now) (glob_match (snapshot_path self @ c)) (files w)"
    using purge_camera_proj(2) [of self now c w] b by simp
  show ?case
  proof (cases r)
    case None
    then show ?thesis using b f1 r1 Cons.IH [of w1] by simp
  next
    case (Some e)
    then show ?thesis using b f1 r1 by simp
  qed
qed

lemma purge_snapshots_proj:
  "files (fst (purge_snapshots self now w))
     = fst (cams_run (purge_verdict self now) (map (\<lambda>c. glob_match (snapshot_path self @ c)) (camera_names self)) (files w))"
  "snd (purge_snapshots self now w)
     = snd (cams_run (purge_verdict self now) (map (\<lambda>c. glob_match (snapshot_path self @ c)) (camera_names self)) (files w))"
  using purge_cameras_proj [of self now "camera_names self" "logger INFO ''Purging Snapshots...'' w"]
  by (simp_all add: purge_snapshots_def)

lemma takeWhile_filter_commute:
  "(\<And>x. \<not> P x \<Longrightarrow> Q x) \<Longrightarrow> takeWhile P (filter Q xs) = filter Q (takeWhile P xs)"
  by (induction xs) auto

lemma dropWhile_filter_hd:
  "(\<And>x. \<not> P x \<Longrightarrow> Q x) \<Longrightarrow>
     (case dropWhile P (filter Q xs) of [] \<Rightarrow> None | b # _ \<Rightarrow> Some (g b))
       = (case dropWhile P xs of [] \<Rightarrow> None | b # _ \<Rightarrow> Some (g b))"
  by (induction xs) auto

lemma doomed_verdict: "f \<in> set (doomed v fl) \<Longrightarrow> v f = Inr True"
  by (simp add: doomed_def)

lemma doomed_subset: "set (doomed v fl) \<subseteq> set fl"
  by (auto simp add: doomed_def dest: set_takeWhileD)

lemma cam_files_subset: "set (cam_files v m F) \<subseteq> set F"
  by (auto simp add: cam_files_def)

lemma quiet_mono: "set F' \<subseteq> set F \<Longrightarrow> quiet v m F \<Longrightarrow> quiet v m F'"
  by (auto simp add: quiet_def)

lemma quiet_fix: "quiet v m F \<Longrightarrow> cam_files v m F = F \<and> cam_error v m F = None"
proof -
  assume q: "quiet v m F"
  then have all: "\<forall>f\<in>set (filter m F). v f = Inr False" by (simp add: quiet_def)
  then have tw: "takeWhile (\<lambda>f. \<not> isl (v f)) (filter m F) = filter m F"
    by (intro takeWhile_eq_all_conv [THEN iffD2]) auto
  have dw: "dropWhile (\<lambda>f. \<not> isl (v f)) (filter m F) = []"
    using all by (intro dropWhile_eq_Nil_conv [THEN iffD2]) auto
  have d: "doomed v (filter m F) = []"
    unfolding doomed_def tw using all by (auto simp add: filter_empty_conv)
  have ce: "cam_error v m F = None"
    unfolding cam_error_def loop_error_def dw by simp
  have cf: "cam_files v m F = F"
    unfolding cam_files_def d by simp
  show ?thesis using ce cf by simp
qed

lemma cam_success_quiet:
  assumes "cam_error v m F = None"
  shows "quiet v m (cam_files v m F)"
proof -
  have dw: "dropWhile (\<lambda>f. \<not> isl (v f)) (filter m F) = []"
    using assms by (simp add: cam_error_def loop_error_def split: list.splits)
  then have allok: "\<forall>f\<in>set (filter m F). \<not> isl (v f)"
    by (simp add: dropWhile_eq_Nil_conv)
  then have tw: "takeWhile (\<lambda>f. \<not> isl (v f)) (filter m F) = filter m F"
    by (intro takeWhile_eq_all_conv [THEN iffD2]) auto
  show ?thesis
    unfolding quiet_def cam_files_def doomed_def tw
  proof (intro ballI impI)
    fix f assume f: "f \<in> set (filter (\<lambda>f. f \<notin> set (filter (\<lambda>f. v f = Inr True) (filter m F))) F)" and m: "m f"
    then have "f \<in> set F" "v f \<noteq> Inr True" by auto
    moreover have "\<not> isl (v f)" using allok \<open>f \<in> set F\<close> m by simp
    ultimately show "v f = Inr False" by (cases "v f") auto
  qed
qed

lemma cam_error_idem:
  assumes "cam_error v m F = Some e"
  shows "cam_files v m (cam_files v m F) = cam_files v m F \<and> cam_error v m (cam_files v m F) = Some e"
proof -
  let ?ok = "\<lambda>f. \<not> isl (v f)"
  let ?D = "set (doomed v (filter m F))"
  let ?Q = "\<lambda>f. f \<notin> ?D"
  have nq: "\<And>x. \<not> ?ok x \<Longrightarrow> ?Q x"
    using doomed_verdict [of _ v "filter m F"] by auto
  have fl': "filter m (cam_files v m F) = filter ?Q (filter m F)"
    by (auto simp add: cam_files_def intro: filter_cong)
  have tw: "takeWhile ?ok (filter m (cam_files v m F)) = filter ?Q (takeWhile ?ok (filter m F))"
    unfolding fl' using nq by (rule takeWhile_filter_commute)
  have "doomed v (filter m (cam_files v m F)) = []"
    unfolding doomed_def tw by (auto simp add: filter_empty_conv doomed_def)
  then have 1: "cam_files v m (cam_files v m F) = cam_files v m F"
    by (simp add: cam_files_def [of v m "cam_files v m F"])
  have 2: "cam_error v m (cam_files v m F) = cam_error v m F"
    unfolding cam_error_def loop_error_def fl' using nq by (rule dropWhile_filter_hd)
  show ?thesis using 1 2 assms by simp
qed

lemma cams_run_subset: "set (fst (cams_run v ms F)) \<subseteq> set F"
proof (induction ms arbitrary: F)
  case Nil
  then show ?case by simp
next
  case (Cons m ms)
  show ?case
    using Cons.IH [of "cam_files v m F"] cam_files_subset [of v m F]
    by (auto split: option.splits)
qed

lemma cams_run_keeps: "f \<in> set F \<Longrightarrow> v f \<noteq> Inr True \<Longrightarrow> f \<in> set (fst (cams_run v ms F))"
proof (induction ms arbitrary: F)
  case Nil
  then show ?case by simp
next
  case (Cons m ms)
  have "f \<notin> set (doomed v (filter m F))" using Cons.prems(2) doomed_verdict by blast
  then have fin: "f \<in> set (cam_files v m F)" using Cons.prems(1) by (simp add: cam_files_def)
  show ?case
    using fin Cons.IH [OF fin Cons.prems(2)] by (simp split: option.splits)
qed

lemma cams_run_idem:
  "cams_run v ms F = (F', r) \<Longrightarrow> cams_run v ms F' = (F', r)"
proof (induction ms arbitrary: F)
  case Nil
  then show ?case by simp
next
  case (Cons m ms)
  show ?case
  proof (cases "cam_error v m F")
    case None
    with Cons.prems have run: "cams_run v ms (cam_files v m F) = (F', r)" by simp
    have "set F' \<subseteq> set (cam_files v m F)"
      using cams_run_subset [of v ms "cam_files v m F"] run by simp
    then have "quiet v m F'"
      using cam_success_quiet [OF None] quiet_mono by blast
    then have "cam_files v m F' = F'" "cam_error v m F' = None"
      using quiet_fix by blast+
    then show ?thesis using Cons.IH [OF run] by simp
  next
    case (Some e)
    with Cons.prems have "F' = cam_files v m F" "r = Some e" by simp_all
    then show ?thesis using cam_error_idem [OF Some] by simp
  qed
qed

lemma cams_run_all_ok:
  "(\<forall>m\<in>set ms. \<forall>f\<in>set F. m f \<longrightarrow> \<not> isl (v f)) \<Longrightarrow>
     cams_run v ms F = (filter (\<lambda>f. \<not> (\<exists>m\<in>set ms. m f \<and> v f = Inr True)) F, None)"
proof (induction ms arbitrary: F)
  case Nil
  then show ?case by simp
next
  case (Cons m ms)
  have allok: "\<forall>f\<in>set (filter m F). \<not> isl (v f)" using Cons.prems by simp
  then have tw: "takeWhile (\<lambda>f. \<not> isl (v f)) (filter m F) = filter m F"
    by (intro takeWhile_eq_all_conv [THEN iffD2]) auto
  have dw: "dropWhile (\<lambda>f. \<not> isl (v f)) (filter m F) = []"
    using allok by (intro dropWhile_eq_Nil_conv [THEN iffD2]) auto
  have ce: "cam_error v m F = None"
    unfolding cam_error_def loop_error_def dw by simp
  have cf: "cam_files v m F = filter (\<lambda>f. \<not> (m f \<and> v f = Inr True)) F"
    unfolding cam_files_def doomed_def tw by (auto intro: filter_cong)
  have "\<forall>m'\<in>set ms. \<forall>f\<in>set (cam_files v m F). m' f \<longrightarrow> \<not> isl (v f)"
    using Cons.prems cam_files_subset [of v m F] by auto
  from Cons.IH [OF this] show ?case
    using ce by (auto simp add: cf intro: filter_cong)
qed

lemma cams_run_bad:
  "m \<in> set ms \<Longrightarrow> f \<in> set F \<Longrightarrow> m f \<Longrightarrow> isl (v f) \<Longrightarrow> snd (cams_run v ms F) \<noteq> None"
proof (induction ms arbitrary: F)
  case Nil
  then show ?case by simp
next
  case (Cons m' ms)
  show ?case
  proof (cases "cam_error v m' F")
    case (Some e)
    then show ?thesis by simp
  next
    case None
    have q: "quiet v m' (cam_files v m' F)" using cam_success_quiet [OF None] .
    have "v f \<noteq> Inr True" using Cons.prems(4) by auto
    then have "f \<notin> set (doomed v (filter m' F))" using doomed_verdict by blast
    then have fin: "f \<in> set (cam_files v m' F)" using Cons.prems(2) by (simp add: cam_files_def)
    have "m \<noteq> m'"
    proof
      assume "m = m'"
      then have "v f = Inr False" using q fin Cons.prems(3) by (simp add: quiet_def)
      then show False using Cons.prems(4) by simp
    qed
    then have "m \<in> set ms" using Cons.prems(1) by simp
    from Cons.IH [OF this fin Cons.prems(3) Cons.prems(4)] show ?thesis using None by simp
  qed
qed

subsection \<open>The assembly\<close>

lemma files_write_file: "files (write_file g w) = (if g \<in> set (files w) then files w else files w @ [g])"
  by (simp add: write_file_def)

lemma glob_match_jpg: "glob_match p path \<Longrightarrow> drop (length path - 4) path = ''.jpg''"
  by (simp add: glob_match_def Let_def)

lemma not_glob_match_gif: "\<not> glob_match p (x @ ''.gif'')"
proof
  assume "glob_match p (x @ ''.gif'')"
  from glob_match_jpg [OF this] show False by simp
qed

lemma glob_write_gif: "glob_jpg (files (write_file (x @ ''.gif'') w)) p = glob_jpg (files w) p"
  by (simp add: files_write_file glob_jpg_def not_glob_match_gif)

lemma glob_write_gif2: "glob_jpg (files (write_file (x @ y @ ''.gif'') w)) p = glob_jpg (files w) p"
  using glob_write_gif [of "x @ y" w p] by simp

lemma files_mimwrite: "files (mimwrite out fs fps w) = files (write_file out w)"
  by (simp add: mimwrite_def write_file_def)

lemma files_os_system: "files (os_system cmd target w) = files (write_file target w)"
  by (simp add: os_system_def write_file_def)

lemma encoded_simps [simp]:
  "encoded (logger lv msg w) = encoded w"
  "encoded (write_file g w) = encoded w"
  "encoded (os_system cmd target w) = encoded w"
  "encoded (mimwrite out fs fps w) = encoded w @ [(out, fs, fps)]"
  by (simp_all add: logger_def write_file_def os_system_def mimwrite_def)

lemma commands_simps [simp]:
  "commands (logger lv msg w) = commands w"
  "commands (write_file g w) = commands w"
  by (simp_all add: logger_def write_file_def)

lemma read_images_ok:
  "\<forall>f\<in>set fs. imread f = None \<Longrightarrow> read_images imread fs w = (w, None)"
  unfolding read_images_def by (induction fs) auto

lemma sort_Nil_iff [simp]: "sort xs = [] \<longleftrightarrow> xs = []"
  using length_sort [of "\<lambda>x. x" xs] by (metis length_0_conv)

lemma str_0: "str 0 = ''0''"
  by (simp add: str.simps [of 0] char_of_eq_iff)

lemma lapse_camera_no_stills:
  "glob_jpg (files w) (snapshot_path self @ c) = [] \<Longrightarrow>
     lapse_camera self imread c w = (logger DEBUG (''Found 0 images for '' @ c) w, None)"
  by (simp add: lapse_camera_def str_0)

lemma lapse_camera_zero_duration:
  "glob_jpg (files w) (snapshot_path self @ c) \<noteq> [] \<Longrightarrow> lapse_duration self = 0 \<Longrightarrow>
     lapse_camera self imread c w
       = (logger DEBUG (''Found '' @ str (length (glob_jpg (files w) (snapshot_path self @ c)))
            @ '' images for '' @ c) w, Some ZeroDivisionError)"
  by (simp add: lapse_camera_def Let_def)

lemma lapse_camera_run:
  assumes "glob_jpg (files w) (snapshot_path self @ c) \<noteq> []" and "lapse_duration self \<noteq> 0"
    and "\<forall>f\<in>set (glob_jpg (files w) (snapshot_path self @ c)). imread f = None"
  shows "lapse_camera self imread c w =
     (os_system (''gifsicle -O3 --colors 128 --resize-width 512 '' @ (snapshot_path self @ c @ ''.gif'')
                   @ '' > '' @ (lapse_path self @ c @ ''.gif''))
        (lapse_path self @ c @ ''.gif'')
        (mimwrite (snapshot_path self @ c @ ''.gif'')
           (sort (glob_jpg (files w) (snapshot_path self @ c)))
           (of_nat (length (glob_jpg (files w) (snapshot_path self @ c))) / lapse_duration self)
           (logger DEBUG (''Found '' @ str (length (glob_jpg (files w) (snapshot_path self @ c)))
              @ '' images for '' @ c) w)), None)"
proof -
  let ?fs = "sort (glob_jpg (files w) (snapshot_path self @ c))"
  let ?w1 = "logger DEBUG (''Found '' @ str (length ?fs) @ '' images for '' @ c) w"
  have rd: "read_images imread ?fs ?w1 = (?w1, None)"
    using assms(3) by (intro read_images_ok) simp
  show ?thesis
    using assms(1,2) rd by (simp add: lapse_camera_def Let_def)
qed

lemma lapse_camera_encodes:
  assumes "glob_jpg (files w) (snapshot_path self @ c) \<noteq> []" and "lapse_duration self \<noteq> 0"
    and "\<forall>f\<in>set (glob_jpg (files w) (snapshot_path self @ c)). imread f = None"
  shows "snd (lapse_camera self imread c w) = None"
    and "encoded (fst (lapse_camera self imread c w))
           = encoded w @ [(snapshot_path self @ c @ ''.gif'',
                sort (glob_jpg (files w) (snapshot_path self @ c)),
                of_nat (length (glob_jpg (files w) (snapshot_path self @ c))) / lapse_duration self)]"
    and "glob_jpg (files (fst (lapse_camera self imread c w))) p = glob_jpg (files w) p"
proof -
  note run = lapse_camera_run [OF assms]
  show "snd (lapse_camera self imread c w) = None"
    by (simp only: run snd_conv)
  show "encoded (fst (lapse_camera self imread c w))
           = encoded w @ [(snapshot_path self @ c @ ''.gif'',
                sort (glob_jpg (files w) (snapshot_path self @ c)),
                of_nat (length (glob_jpg (files w) (snapshot_path self @ c))) / lapse_duration self)]"
    by (simp only: run fst_conv encoded_simps)
  show "glob_jpg (files (fst (lapse_camera self imread c w))) p = glob_jpg (files w) p"
    by (simp only: run fst_conv files_os_system files_mimwrite glob_write_gif2 files_logger)
qed

lemma lapse_loop_encoded:
  assumes "lapse_duration self \<noteq> 0"
  shows "\<forall>c\<in>set cs. \<forall>f\<in>set (glob_jpg (files w) (snapshot_path self @ c)). imread f = None \<Longrightarrow>
     snd (for_each (lapse_camera self imread) cs w) = None
   \<and> encoded (fst (for_each (lapse_camera self imread) cs w))
       = encoded w @ map (lapse_entry self w)
           (filter (\<lambda>c. glob_jpg (files w) (snapshot_path self @ c) \<noteq> []) cs)"
proof (induction cs arbitrary: w)
  case Nil
  then show ?case by simp
next
  case (Cons c cs)
  obtain w1 r where b: "lapse_camera self imread c w = (w1, r)" by (cases "lapse_camera self imread c w")
  have step: "r = None \<and> (\<forall>p. glob_jpg (files w1) p = glob_jpg (files w) p)
      \<and> encoded w1 = encoded w @ (if glob_jpg (files w) (snapshot_path self @ c) \<noteq> [] then [lapse_entry self w c] else [])"
  proof (cases "glob_jpg (files w) (snapshot_path self @ c) = []")
    case True
    then show ?thesis using b by (auto simp add: lapse_camera_no_stills)
  next
    case False
    have rd: "\<forall>f\<in>set (glob_jpg (files w) (snapshot_path self @ c)). imread f = None"
      using Cons.prems by simp
    show ?thesis
      using lapse_camera_encodes [OF False assms rd] b False by (simp add: lapse_entry_def)
  qed
  then have g: "\<And>p. glob_jpg (files w1) p = glob_jpg (files w) p" by blast
  have "\<forall>c\<in>set cs. \<forall>f\<in>set (glob_jpg (files w1) (snapshot_path self @ c)). imread f = None"
    using Cons.prems by (simp add: g)
  from Cons.IH [OF this] show ?case
    using b step by (simp add: g lapse_entry_def)
qed

lemma lapse_loop_zero_duration:
  assumes "lapse_duration self = 0"
  shows "c \<in> set cs \<Longrightarrow> glob_jpg (files w) (snapshot_path self @ c) \<noteq> [] \<Longrightarrow>
     snd (for_each (lapse_camera self imread) cs w) = Some ZeroDivisionError
   \<and> files (fst (for_each (lapse_camera self imread) cs w)) = files w
   \<and> encoded (fst (for_each (lapse_camera self imread) cs w)) = encoded w
   \<and> commands (fst (for_each (lapse_camera self imread) cs w)) = commands w"
proof (induction cs arbitrary: w)
  case Nil
  then show ?case by simp
next
  case (Cons a cs)
  show ?case
  proof (cases "glob_jpg (files w) (snapshot_path self @ a) = []")
    case True
    then have "a \<noteq> c" using Cons.prems by auto
    then have c: "c \<in> set cs" using Cons.prems by simp
    let ?w1 = "logger DEBUG (''Found 0 images for '' @ a) w"
    have "glob_jpg (files ?w1) (snapshot_path self @ c) \<noteq> []" using Cons.prems by simp
    from Cons.IH [OF c this] show ?thesis
      using True by (simp add: lapse_camera_no_stills)
  next
    case False
    then show ?thesis using assms by (simp add: lapse_camera_zero_duration)
  qed
qed

subsection \<open>The acquisition and the main block\<close>

lemma get_snapshots_try_self:
  "fst (fst (get_snapshots_try self arlo ns w))
     = (case (login_reply arlo, basestations arlo, cameras arlo) of
          (None, Inr bs, Inr cams) \<Rightarrow> self\<lparr>camera_names := effective (camera_names self) (discovered cams)\<rparr>
        | _ \<Rightarrow> self)"
  by (simp add: get_snapshots_try_def Let_def effective_def discovered_def
      split: option.splits sum.splits prod.splits)

lemma get_snapshots_self:
  "fst (fst (get_snapshots self arlo ns w)) = fst (fst (get_snapshots_try self arlo ns (logger INFO ''Getting snapshots...'' w)))"
  by (simp add: get_snapshots_def split: prod.splits option.splits)

lemma get_snapshots_never_raises: "snd (get_snapshots self arlo ns w) = None"
  by (simp add: get_snapshots_def split: prod.splits option.splits)

lemma get_snapshots_caught:
  "get_snapshots_try self arlo ns (logger INFO ''Getting snapshots...'' w) = (sw, Some e) \<Longrightarrow>
     get_snapshots self arlo ns w = ((fst sw, (snd sw)\<lparr>printed := printed (snd sw) @ [e]\<rparr>), None)"
  by (simp add: get_snapshots_def split: prod.splits)

lemma snapshot_camera_timeout:
  assumes "replace CHR '' '' CHR ''_'' (deviceName cam) \<in> set (camera_names self)"
    and "bs \<noteq> []" and "snapshot_reply cam = Inl TimeoutError"
  shows "snapshot_camera self bs ns cam w =
     (logger WARNING (''Timeout '' @ replace CHR '' '' CHR ''_'' (deviceName cam))
        (call_service (TriggerFullFrameSnapshot (deviceName cam))
           (logger DEBUG (''Getting snapshot for '' @ replace CHR '' '' CHR ''_'' (deviceName cam)) w)), None)"
  using assms by (cases bs) (simp_all add: snapshot_camera_def get_snapshot_url_def Let_def)

lemma snapshot_camera_null_url:
  assumes "replace CHR '' '' CHR ''_'' (deviceName cam) \<in> set (camera_names self)"
    and "bs \<noteq> []" and "snapshot_reply cam = Inr None"
  shows "snapshot_camera self bs ns cam w =
     (logger WARNING (''Returned None URL for '' @ replace CHR '' '' CHR ''_'' (deviceName cam))
        (call_service (TriggerFullFrameSnapshot (deviceName cam))
           (logger DEBUG (''Getting snapshot for '' @ replace CHR '' '' CHR ''_'' (deviceName cam)) w)), None)"
  using assms by (cases bs) (simp_all add: snapshot_camera_def get_snapshot_url_def Let_def)

lemma snapshot_camera_other:
  assumes "replace CHR '' '' CHR ''_'' (deviceName cam) \<in> set (camera_names self)"
    and "bs \<noteq> []" and "snapshot_reply cam = Inl e" and "e \<noteq> TimeoutError"
  shows "snapshot_camera self bs ns cam w =
     (call_service (TriggerFullFrameSnapshot (deviceName cam))
        (logger DEBUG (''Getting snapshot for '' @ replace CHR '' '' CHR ''_'' (deviceName cam)) w), Some e)"
  using assms by (cases bs) (simp_all add: snapshot_camera_def get_snapshot_url_def Let_def)

lemma main_proceeds:
  "init cfg w = (w1, Inr g) \<Longrightarrow>
     main cfg arlo imread ns now w
       = main_after_snapshots (fst (fst (get_snapshots g arlo ns w1))) imread now
           (snd (fst (get_snapshots g arlo ns w1)))"
proof -
  assume i: "init cfg w = (w1, Inr g)"
  obtain a b r where gs: "get_snapshots g arlo ns w1 = ((a, b), r)"
    by (metis surj_pair)
  have "r = None" using get_snapshots_never_raises [of g arlo ns w1] gs by simp
  then show ?thesis using i gs by (simp add: main_def)
qed

lemma get_snapshots_loop:
  assumes "login_reply arlo = None" and "basestations arlo = Inr bs" and "cameras arlo = Inr cams"
    and "self' = self\<lparr>camera_names := effective (camera_names self) (discovered cams)\<rparr>"
  shows "get_snapshots self arlo ns w
           = ((self', caught (for_each (snapshot_camera self' bs ns) cams (started self self' w))), None)"
  using assms
  by (simp add: get_snapshots_def get_snapshots_try_def Let_def effective_def discovered_def
      started_def caught_def split: prod.splits option.splits)

lemma get_snapshots_login_fails:
  "login_reply arlo = Some e \<Longrightarrow>
     get_snapshots self arlo ns w
       = ((self, (call_service (Login (username self) (password self)) (logger INFO ''Getting snapshots...'' w))
                   \<lparr>printed := printed w @ [e]\<rparr>), None)"
  by (simp add: get_snapshots_def get_snapshots_try_def Let_def call_service_def logger_def)

lemma main_runs_purge_and_lapse:
  assumes "init cfg w = (w1, Inr g)"
  shows "main cfg arlo imread ns now w
     = (case purge_snapshots (fst (fst (get_snapshots g arlo ns w1))) now (snd (fst (get_snapshots g arlo ns w1))) of
          (w3, Some e) \<Rightarrow> (w3, Some e)
        | (w3, None) \<Rightarrow>
            (case make_lapse (fst (fst (get_snapshots g arlo ns w1))) imread w3 of
               (w4, Some e) \<Rightarrow> (w4, Some e)
             | (w4, None) \<Rightarrow> (logger INFO ''Script complete.'' w4, None)))"
  using main_proceeds [OF assms, of arlo imread ns now] by (simp add: main_after_snapshots_def)

subsection \<open>The calendar\<close>

lemma month_cases:
  "1 \<le> m \<Longrightarrow> m \<le> 12 \<Longrightarrow>
     m = 1 \<or> m = 2 \<or> m = 3 \<or> m = 4 \<or> m = 5 \<or> m = 6 \<or> m = 7 \<or> m = 8 \<or> m = 9 \<or> m = 10 \<or> m = 11 \<or> m = (12::nat)"
  by arith

lemma dbm_last:
  "days_before_month y 12 + days_in_month y 12 = (if is_leap y then 366 else 365)"
  by (simp add: days_before_month_def days_in_month_def)

lemma dbm_next:
  "1 \<le> m \<Longrightarrow> m < 12 \<Longrightarrow> days_before_month y m + days_in_month y m = days_before_month y (Suc m)"
  using month_cases [of m]
  by (auto simp add: days_before_month_def days_in_month_def)

lemma mod_chain: "(a::nat) dvd b \<Longrightarrow> n mod b = 0 \<Longrightarrow> n mod a = 0"
proof -
  assume ab: "a dvd b" and "n mod b = 0"
  then have "b dvd n" by (rule_tac mod_0_imp_dvd)
  with ab have "a dvd n" by (rule dvd_trans)
  then show ?thesis by (rule dvd_imp_mod_0)
qed

lemma dby_step:
  assumes "1 \<le> y"
  shows "days_before_year (Suc y) = days_before_year y + (if is_leap y then 366 else 365)"
proof -
  obtain k where y: "y = Suc k" using assms by (cases y) auto
  define q4 where "q4 = k div 4"
  define q100 where "q100 = k div 100"
  define q400 where "q400 = k div 400"
  have d4: "Suc k div 4 = (if Suc k mod 4 = 0 then Suc q4 else q4)"
    unfolding q4_def by (rule div_Suc)
  have d100: "Suc k div 100 = (if Suc k mod 100 = 0 then Suc q100 else q100)"
    unfolding q100_def by (rule div_Suc)
  have d400: "Suc k div 400 = (if Suc k mod 400 = 0 then Suc q400 else q400)"
    unfolding q400_def by (rule div_Suc)
  have "(4::nat) dvd 100" by simp
  then have m1: "Suc k mod 100 = 0 \<Longrightarrow> Suc k mod 4 = 0" by (rule mod_chain)
  have "(100::nat) dvd 400" by simp
  then have m2: "Suc k mod 400 = 0 \<Longrightarrow> Suc k mod 100 = 0" by (rule mod_chain)
  have le: "q100 \<le> q4" unfolding q100_def q4_def by (rule div_le_mono2) simp_all
  have e2: "days_before_year (Suc (Suc k)) = Suc k * 365 + Suc k div 4 - Suc k div 100 + Suc k div 400"
    by (simp add: days_before_year_def)
  have e1: "days_before_year (Suc k) = k * 365 + q4 - q100 + q400"
    by (simp add: days_before_year_def q4_def q100_def q400_def)
  show ?thesis
  proof (cases "Suc k mod 4 = 0")
    case a: True
    show ?thesis
    proof (cases "Suc k mod 100 = 0")
      case b: True
      show ?thesis
      proof (cases "Suc k mod 400 = 0")
        case True
        then show ?thesis unfolding y e2 e1 is_leap_def d4 d100 d400 using a b le by (simp; arith)
      next
        case False
        then show ?thesis unfolding y e2 e1 is_leap_def d4 d100 d400 using a b le by (simp; arith)
      qed
    next
      case b: False
      have "Suc k mod 400 \<noteq> 0"
      proof
        assume "Suc k mod 400 = 0"
        then have "Suc k mod 100 = 0" by (rule m2)
        with b show False by (rule notE)
      qed
      then show ?thesis unfolding y e2 e1 is_leap_def d4 d100 d400 using a b le by (simp; arith)
    qed
  next
    case a: False
    have b: "Suc k mod 100 \<noteq> 0"
    proof
      assume "Suc k mod 100 = 0"
      then have "Suc k mod 4 = 0" by (rule m1)
      with a show False by (rule notE)
    qed
    have "Suc k mod 400 \<noteq> 0"
    proof
      assume "Suc k mod 400 = 0"
      then have "Suc k mod 100 = 0" by (rule m2)
      with b show False by (rule notE)
    qed
    then show ?thesis unfolding y e2 e1 is_leap_def d4 d100 d400 using a b le by (simp; arith)
  qed
qed

lemma dby_mono: "y1 \<le> y2 \<Longrightarrow> days_before_year y1 \<le> days_before_year y2"
proof (induction y2)
  case 0
  then show ?case by simp
next
  case (Suc y2)
  show ?case
  proof (cases "y1 = Suc y2")
    case True
    then show ?thesis by simp
  next
    case False
    then have le: "y1 \<le> y2" using Suc.prems by simp
    show ?thesis
    proof (cases "y2 = 0")
      case True
      then show ?thesis using le by (simp add: days_before_year_def)
    next
      case False
      then have "days_before_year y2 \<le> days_before_year (Suc y2)" by (simp add: dby_step)
      then show ?thesis using Suc.IH [OF le] by simp
    qed
  qed
qed

lemma dim_le_31: "1 \<le> m \<Longrightarrow> m \<le> 12 \<Longrightarrow> days_in_month y m \<le> 31"
  using month_cases [of m] by (auto simp add: days_in_month_def)

lemma dbm_before:
  "m < m2 \<Longrightarrow> m2 \<le> 12 \<Longrightarrow> 1 \<le> m \<Longrightarrow> days_before_month y m + days_in_month y m \<le> days_before_month y m2"
proof (induction m2)
  case 0
  then show ?case by simp
next
  case (Suc k)
  show ?case
  proof (cases "m = k")
    case True
    then show ?thesis using Suc.prems dbm_next [of k y] by simp
  next
    case False
    then have "m < k" "k \<le> 12" "1 \<le> k" "k < 12" using Suc.prems by simp_all
    then have "days_before_month y m + days_in_month y m \<le> days_before_month y k"
      using Suc.IH Suc.prems by simp
    also have "\<dots> \<le> days_before_month y k + days_in_month y k" by simp
    also have "\<dots> = days_before_month y (Suc k)" using \<open>1 \<le> k\<close> \<open>k < 12\<close> by (rule dbm_next)
    finally show ?thesis .
  qed
qed

lemma day_of_year_le:
  assumes "1 \<le> m" "m \<le> 12" "d \<le> days_in_month y m"
  shows "days_before_month y m + d \<le> (if is_leap y then 366 else 365)"
proof (cases "m = 12")
  case True
  then show ?thesis using assms(3) dbm_last [of y] by simp
next
  case False
  then have "m < 12" using assms(2) by simp
  then have "days_before_month y m + days_in_month y m \<le> days_before_month y 12"
    using assms(1) by (intro dbm_before) simp_all
  then show ?thesis using assms(3) dbm_last [of y] by (simp split: if_splits)
qed

lemma ymd2ord_less_year:
  assumes "1 \<le> y1" "y1 < y2" "1 \<le> m1" "m1 \<le> 12" "d1 \<le> days_in_month y1 m1" "1 \<le> d2"
  shows "ymd2ord y1 m1 d1 < ymd2ord y2 m2 d2"
proof -
  have "ymd2ord y1 m1 d1 \<le> days_before_year y1 + (if is_leap y1 then 366 else 365)"
    unfolding ymd2ord_def using day_of_year_le [OF assms(3,4,5)] by simp
  also have "\<dots> = days_before_year (Suc y1)" using assms(1) by (simp add: dby_step)
  also have "\<dots> \<le> days_before_year y2" using assms(2) by (intro dby_mono) simp
  also have "\<dots> < ymd2ord y2 m2 d2" unfolding ymd2ord_def using assms(6) by simp
  finally show ?thesis .
qed

lemma ymd2ord_less_month:
  assumes "1 \<le> m1" "m1 < m2" "m2 \<le> 12" "d1 \<le> days_in_month y m1" "1 \<le> d2"
  shows "ymd2ord y m1 d1 < ymd2ord y m2 d2"
proof -
  have "days_before_month y m1 + d1 \<le> days_before_month y m1 + days_in_month y m1"
    using assms(4) by simp
  also have "\<dots> \<le> days_before_month y m2" using assms(2,3,1) by (rule dbm_before)
  also have "\<dots> < days_before_month y m2 + d2" using assms(5) by simp
  finally show ?thesis unfolding ymd2ord_def by simp
qed

lemma mk_datetime_Inr:
  assumes "mk_datetime y m d h n s = Inr a"
  shows "1 \<le> y" "1 \<le> m" "m \<le> 12" "1 \<le> d" "d \<le> days_in_month y m" "h \<le> 23" "n \<le> 59" "s \<le> 59"
    and "a = ((int (ymd2ord y m d) - 1) * 86400 + int h * 3600 + int n * 60 + int s) * 1000000"
  using assms by (simp_all add: mk_datetime_def not_less split: if_splits)

lemma day_gap: "(o1::int) + 1 \<le> o2 \<Longrightarrow> t1 < 86400 \<Longrightarrow> 0 \<le> t2 \<Longrightarrow>
   (o1 - 1) * 86400 + t1 \<le> (o2 - 1) * 86400 + t2"
proof -
  assume a: "o1 + 1 \<le> o2" "t1 < 86400" "0 \<le> t2"
  have "(o1 - 1) * 86400 + t1 \<le> (o1 - 1) * 86400 + 86400" using a(2) by simp
  also have "\<dots> = o1 * 86400" by (simp add: algebra_simps)
  also have "\<dots> \<le> (o2 - 1) * 86400" using a(1) by simp
  also have "\<dots> \<le> (o2 - 1) * 86400 + t2" using a(3) by simp
  finally show ?thesis .
qed

lemma stamp_mono:
  assumes a: "mk_datetime y1 m1 d1 h1 n1 s1 = Inr a" and b: "mk_datetime y2 m2 d2 h2 n2 s2 = Inr b"
    and le: "y1 * 10000000000 + m1 * 100000000 + d1 * 1000000 + h1 * 10000 + n1 * 100 + s1
           \<le> y2 * 10000000000 + m2 * 100000000 + d2 * 1000000 + h2 * 10000 + n2 * 100 + s2"
  shows "a \<le> b"
proof -
  note va = mk_datetime_Inr [OF a] and vb = mk_datetime_Inr [OF b]
  have da: "d1 \<le> 31" using dim_le_31 [OF va(2,3), of y1] va(5) by simp
  have db: "d2 \<le> 31" using dim_le_31 [OF vb(2,3), of y2] vb(5) by simp
  let ?t1 = "int h1 * 3600 + int n1 * 60 + int s1"
  let ?t2 = "int h2 * 3600 + int n2 * 60 + int s2"
  have t1: "0 \<le> ?t1" "?t1 < 86400" using va(6,7,8) by simp_all
  have t2: "0 \<le> ?t2" "?t2 < 86400" using vb(6,7,8) by simp_all
  have strict: "a \<le> b" if "ymd2ord y1 m1 d1 < ymd2ord y2 m2 d2"
  proof -
    have "int (ymd2ord y1 m1 d1) + 1 \<le> int (ymd2ord y2 m2 d2)" using that by simp
    then have "(int (ymd2ord y1 m1 d1) - 1) * 86400 + ?t1 \<le> (int (ymd2ord y2 m2 d2) - 1) * 86400 + ?t2"
      using t1(2) t2(1) by (rule day_gap)
    then show ?thesis unfolding va(9) vb(9) by simp
  qed
  have y: "y1 \<le> y2"
  proof (rule ccontr)
    assume "\<not> y1 \<le> y2"
    then have "y2 + 1 \<le> y1" by simp
    then show False using le vb(3,6,7,8) db by linarith
  qed
  show ?thesis
  proof (cases "y1 < y2")
    case True
    then show ?thesis
      using ymd2ord_less_year [OF va(1) True va(2,3,5) vb(4)] strict by simp
  next
    case False
    then have ye: "y1 = y2" using y by simp
    have m: "m1 \<le> m2"
    proof (rule ccontr)
      assume "\<not> m1 \<le> m2"
      then have "m2 + 1 \<le> m1" by simp
      then show False using le ye vb(6,7,8) db by linarith
    qed
    show ?thesis
    proof (cases "m1 < m2")
      case True
      then show ?thesis
        using ymd2ord_less_month [OF va(2) True vb(3) va(5) vb(4)] strict ye by simp
    next
      case False
      then have me: "m1 = m2" using m by simp
      have d: "d1 \<le> d2"
      proof (rule ccontr)
        assume "\<not> d1 \<le> d2"
        then have "d2 + 1 \<le> d1" by simp
        then show False using le ye me vb(6,7,8) by linarith
      qed
      show ?thesis
      proof (cases "d1 < d2")
        case True
        then have "ymd2ord y1 m1 d1 < ymd2ord y2 m2 d2" by (simp add: ymd2ord_def ye me)
        then show ?thesis by (rule strict)
      next
        case False
        then have de: "d1 = d2" using d by simp
        have tle: "h1 * 10000 + n1 * 100 + s1 \<le> h2 * 10000 + n2 * 100 + s2"
          using le ye me de by simp
        have "?t1 \<le> ?t2"
        proof (cases "h1 < h2")
          case True
          then have "h1 + 1 \<le> h2" by simp
          then show ?thesis using va(7,8) by linarith
        next
          case False
          have "h1 \<le> h2"
          proof (rule ccontr)
            assume "\<not> h1 \<le> h2"
            then have "h2 + 1 \<le> h1" by simp
            then show False using tle vb(7,8) by linarith
          qed
          then have he: "h1 = h2" using False by simp
          have nle: "n1 * 100 + s1 \<le> n2 * 100 + s2" using tle he by simp
          show ?thesis
          proof (cases "n1 < n2")
            case True
            then have "n1 + 1 \<le> n2" by simp
            then show ?thesis using he va(8) by linarith
          next
            case False
            have "n1 \<le> n2"
            proof (rule ccontr)
              assume "\<not> n1 \<le> n2"
              then have "n2 + 1 \<le> n1" by simp
              then show False using nle vb(8) by linarith
            qed
            then have ne: "n1 = n2" using False by simp
            then show ?thesis using nle he by simp
          qed
        qed
        then show ?thesis unfolding va(9) vb(9) ye me de by simp
      qed
    qed
  qed
qed

subsection \<open>Fourteen digits and their date\<close>

lemma space_not_digit: "\<not> is_digit CHR '' ''"
  by (simp add: is_digit_def)

lemma two_chars_eats: "vr \<in> set (two_chars P Q s) \<Longrightarrow> eats s vr"
  by (auto simp add: two_chars_def eats_def split: list.splits if_splits)

lemma one_char_eats: "vr \<in> set (one_char P s) \<Longrightarrow> eats s vr"
  by (auto simp add: one_char_def eats_def split: list.splits if_splits)

lemma space_char_eats: "vr \<in> set (space_char Q s) \<Longrightarrow> list_all is_digit s \<Longrightarrow> eats s vr"
  by (auto simp add: space_char_def space_not_digit split: list.splits if_splits)

lemma dir_eats:
  "vr \<in> set (dir_m s) \<Longrightarrow> eats s vr"
  "vr \<in> set (dir_d s) \<Longrightarrow> list_all is_digit s \<Longrightarrow> eats s vr"
  "vr \<in> set (dir_H s) \<Longrightarrow> eats s vr"
  "vr \<in> set (dir_M s) \<Longrightarrow> eats s vr"
  "vr \<in> set (dir_S s) \<Longrightarrow> eats s vr"
  by (auto simp add: dir_m_def dir_d_def dir_H_def dir_M_def dir_S_def
      dest: two_chars_eats one_char_eats space_char_eats)

lemma dir_Y_eats:
  "(y, r) \<in> set (dir_Y s) \<Longrightarrow> length s = length r + 4 \<and> y = dec (take 4 s) \<and> r = drop 4 s"
  by (auto simp add: dir_Y_def split: list.splits if_splits)

lemma eats_digits: "eats s (v, r) \<Longrightarrow> list_all is_digit s \<Longrightarrow> list_all is_digit r"
  by (auto simp add: eats_def list_all_iff dest: in_set_dropD)

lemma list_all_drop: "list_all P xs \<Longrightarrow> list_all P (drop n xs)"
  unfolding list_all_iff by (meson in_set_dropD)

lemma eats_le: "eats s (v, r) \<Longrightarrow> length s \<le> length r + 2"
  by (auto simp add: eats_def)

lemma eats_exact: "eats s (v, r) \<Longrightarrow> length s = length r + 2 \<Longrightarrow> v = dec (take 2 s) \<and> r = drop 2 s"
  by (auto simp add: eats_def)

lemma strptime_14:
  assumes len: "length ts = 14" and dig: "list_all is_digit ts" and p: "strptime ts = Inr t"
  shows "mk_datetime (dec (take 4 ts)) (dec (take 2 (drop 4 ts))) (dec (take 2 (drop 6 ts)))
           (dec (take 2 (drop 8 ts))) (dec (take 2 (drop 10 ts))) (dec (take 2 (drop 12 ts))) = Inr t"
proof -
  from p obtain y m d h n s more where
    fm: "format_matches ts = ((y, m, d, h, n, s), []) # more" and mk: "mk_datetime y m d h n s = Inr t"
    by (auto simp add: strptime_def split: list.splits if_splits)
  have "((y, m, d, h, n, s), []) \<in> set (format_matches ts)" unfolding fm by simp
  then obtain r1 r2 r3 r4 r5 where
    c: "(y, r1) \<in> set (dir_Y ts)" "(m, r2) \<in> set (dir_m r1)" "(d, r3) \<in> set (dir_d r2)"
       "(h, r4) \<in> set (dir_H r3)" "(n, r5) \<in> set (dir_M r4)" "(s, []) \<in> set (dir_S r5)"
    by (auto simp add: format_matches_def)
  have Y: "length ts = length r1 + 4" "y = dec (take 4 ts)" "r1 = drop 4 ts"
    using dir_Y_eats [OF c(1)] by blast+
  have g1: "list_all is_digit r1" unfolding Y(3) using dig by (rule list_all_drop)
  have e2: "eats r1 (m, r2)" using c(2) by (rule dir_eats)
  have g2: "list_all is_digit r2" using e2 g1 by (rule eats_digits)
  have e3: "eats r2 (d, r3)" using c(3) g2 by (rule dir_eats)
  have e4: "eats r3 (h, r4)" using c(4) by (rule dir_eats)
  have e5: "eats r4 (n, r5)" using c(5) by (rule dir_eats)
  have e6: "eats r5 (s, [])" using c(6) by (rule dir_eats)
  have l1: "length r1 = 10" using Y(1) len by simp
  note ls = eats_le [OF e2] eats_le [OF e3] eats_le [OF e4] eats_le [OF e5] eats_le [OF e6]
  have l6: "length r5 = length ([]::string) + 2" using l1 ls by simp
  have l5: "length r4 = length r5 + 2" using l1 ls by simp
  have l4: "length r3 = length r4 + 2" using l1 ls by simp
  have l3: "length r2 = length r3 + 2" using l1 ls by simp
  have l2: "length r1 = length r2 + 2" using l1 ls by simp
  note x2 = eats_exact [OF e2 l2] and x3 = eats_exact [OF e3 l3] and x4 = eats_exact [OF e4 l4]
    and x5 = eats_exact [OF e5 l5] and x6 = eats_exact [OF e6 l6]
  have r2: "r2 = drop 6 ts" using x2 Y(3) by simp
  have r3: "r3 = drop 8 ts" using x3 r2 by simp
  have r4: "r4 = drop 10 ts" using x4 r3 by simp
  have r5: "r5 = drop 12 ts" using x5 r4 by simp
  have v: "m = dec (take 2 (drop 4 ts))" "d = dec (take 2 (drop 6 ts))" "h = dec (take 2 (drop 8 ts))"
    "n = dec (take 2 (drop 10 ts))" "s = dec (take 2 (drop 12 ts))"
    using x2 x3 x4 x5 x6 Y(3) r2 r3 r4 r5 by simp_all
  show ?thesis using mk unfolding v Y(2) .
qed

lemma digit_val_less: "is_digit a \<Longrightarrow> is_digit b \<Longrightarrow> a < b \<Longrightarrow> digit_val a < digit_val b"
  by (simp add: is_digit_def digit_val_def less_char_def less_eq_char_def)

lemma dec_less: "list_all is_digit cs \<Longrightarrow> dec cs < 10 ^ length cs"
proof (induction cs)
  case Nil
  then show ?case by simp
next
  case (Cons c cs)
  define p where "p = (10::nat) ^ length cs"
  have "is_digit c" using Cons.prems by simp
  then have "digit_val c \<le> 9" by (auto simp add: is_digit_def digit_val_def less_eq_char_def)
  then have a: "digit_val c * p \<le> 9 * p" by (rule mult_le_mono1)
  have b: "dec cs < p" using Cons by (simp add: p_def)
  have "digit_val c * p + dec cs < 10 * p" using a b by linarith
  then show ?case by (simp add: p_def)
qed

lemma dec_mono:
  "length xs = length ys \<Longrightarrow> list_all is_digit xs \<Longrightarrow> list_all is_digit ys \<Longrightarrow> xs \<le> ys \<Longrightarrow> dec xs \<le> dec ys"
proof (induction xs ys rule: list_induct2)
  case Nil
  then show ?case by simp
next
  case (Cons a x b y)
  show ?case
  proof (cases "a < b")
    case True
    define p where "p = (10::nat) ^ length x"
    have "digit_val a + 1 \<le> digit_val b" using Cons.prems True digit_val_less [of a b] by simp
    then have "(digit_val a + 1) * p \<le> digit_val b * p" by (rule mult_le_mono1)
    then have m: "digit_val a * p + p \<le> digit_val b * p" by (simp add: algebra_simps)
    have "list_all is_digit x" using Cons.prems by simp
    then have l: "dec x < p" unfolding p_def by (rule dec_less)
    have "digit_val a * p + dec x \<le> digit_val b * p + dec y" using m l by linarith
    then show ?thesis using Cons.hyps by (simp add: p_def)
  next
    case False
    then have "a = b" "x \<le> y" using Cons.prems by simp_all
    then show ?thesis using Cons by simp
  qed
qed

lemma dec_append: "dec (xs @ ys) = dec xs * 10 ^ length ys + dec ys"
  by (induction xs) (simp_all add: power_add algebra_simps)

lemma dec_split: "k \<le> length s \<Longrightarrow> dec s = dec (take k s) * 10 ^ (length s - k) + dec (drop k s)"
  using dec_append [of "take k s" "drop k s"] by simp

lemma dec_14:
  assumes "length ts = 14"
  shows "dec ts = dec (take 4 ts) * 10000000000 + dec (take 2 (drop 4 ts)) * 100000000
           + dec (take 2 (drop 6 ts)) * 1000000 + dec (take 2 (drop 8 ts)) * 10000
           + dec (take 2 (drop 10 ts)) * 100 + dec (take 2 (drop 12 ts))"
proof -
  have 1: "dec ts = dec (take 4 ts) * 10 ^ 10 + dec (drop 4 ts)"
    using dec_split [of 4 ts] assms by simp
  have 2: "dec (drop 4 ts) = dec (take 2 (drop 4 ts)) * 10 ^ 8 + dec (drop 6 ts)"
    using dec_split [of 2 "drop 4 ts"] assms by simp
  have 3: "dec (drop 6 ts) = dec (take 2 (drop 6 ts)) * 10 ^ 6 + dec (drop 8 ts)"
    using dec_split [of 2 "drop 6 ts"] assms by simp
  have 4: "dec (drop 8 ts) = dec (take 2 (drop 8 ts)) * 10 ^ 4 + dec (drop 10 ts)"
    using dec_split [of 2 "drop 8 ts"] assms by simp
  have 5: "dec (drop 10 ts) = dec (take 2 (drop 10 ts)) * 10 ^ 2 + dec (drop 12 ts)"
    using dec_split [of 2 "drop 10 ts"] assms by simp
  have 6: "take 2 (drop 12 ts) = drop 12 ts" using assms by simp
  show ?thesis unfolding 1 2 3 4 5 6 by simp
qed

lemma strptime_mono:
  assumes "length s = 14" "length t = 14" "list_all is_digit s" "list_all is_digit t"
    and "strptime s = Inr a" "strptime t = Inr b" and "s \<le> t"
  shows "a \<le> b"
proof -
  have "dec s \<le> dec t" using assms(1,2,3,4,7) by (intro dec_mono) simp_all
  then show ?thesis
    unfolding dec_14 [OF assms(1)] dec_14 [OF assms(2)]
    by (rule stamp_mono [OF strptime_14 [OF assms(1,3,5)] strptime_14 [OF assms(2,4,6)]])
qed

lemma append_le_cancel: "(p @ x :: 'a::linorder list) \<le> p @ y \<Longrightarrow> x \<le> y"
  by (induction p) simp_all

lemma take_le_mono: "(x :: 'a::linorder list) \<le> y \<Longrightarrow> take k x \<le> take k y"
proof (induction k arbitrary: x y)
  case 0
  then show ?case by simp
next
  case (Suc k)
  show ?case
  proof (cases x)
    case Nil
    then show ?thesis by simp
  next
    case x: (Cons a x')
    show ?thesis
    proof (cases y)
      case Nil
      then show ?thesis using Suc.prems x by simp
    next
      case y: (Cons b y')
      show ?thesis using Suc.prems Suc.IH [of x' y'] unfolding x y by auto
    qed
  qed
qed

lemma named_still_mono:
  assumes f: "named_still p f" and g: "named_still p g" and le: "f \<le> g"
  shows "projr (still_date p f) \<le> projr (still_date p g)"
proof -
  let ?n = "length p"
  let ?s = "take 14 (drop ?n f)" and ?t = "take 14 (drop ?n g)"
  have ff: "f = p @ drop ?n f" using f append_take_drop_id [of ?n f] by (simp add: named_still_def)
  have gg: "g = p @ drop ?n g" using g append_take_drop_id [of ?n g] by (simp add: named_still_def)
  have "p @ drop ?n f \<le> p @ drop ?n g" using le ff gg by simp
  then have "drop ?n f \<le> drop ?n g" by (rule append_le_cancel)
  then have st: "?s \<le> ?t" by (rule take_le_mono)
  have ls: "length ?s = 14" "length ?t = 14" using f g by (simp_all add: named_still_def)
  have ds: "list_all is_digit ?s" "list_all is_digit ?t" using f g by (simp_all add: named_still_def)
  obtain a where a: "strptime ?s = Inr a"
    using f by (cases "strptime ?s") (simp_all add: named_still_def still_date_def)
  obtain b where b: "strptime ?t = Inr b"
    using g by (cases "strptime ?t") (simp_all add: named_still_def still_date_def)
  have "a \<le> b" using ls ds a b st by (rule strptime_mono)
  then show ?thesis by (simp add: still_date_def a b)
qed

lemma sorted_named_stills:
  assumes "\<forall>f\<in>set fs. named_still p f"
  shows "sorted (map (\<lambda>f. projr (still_date p f)) (sort fs))"
proof -
  have "sorted_wrt (\<lambda>x y. x \<le> y) (sort fs)" using sorted_sort [of fs] by simp
  then have "sorted_wrt (\<lambda>x y. projr (still_date p x) \<le> projr (still_date p y)) (sort fs)"
  proof (rule sorted_wrt_mono_rel [rotated])
    fix x y assume "x \<in> set (sort fs)" "y \<in> set (sort fs)" "x \<le> y"
    then show "projr (still_date p x) \<le> projr (still_date p y)"
      using assms named_still_mono by simp
  qed
  then show ?thesis by (simp add: sorted_map)
qed

subsection \<open>The date the purge reads off a still that follows the naming scheme\<close>

lemma re_search_from_append:
  "re_search_from b p = None \<Longrightarrow>
     re_search_from b (p @ s) = re_search_from (if p = [] then b else is_word (last p)) s"
  by (induction p arbitrary: b) (auto split: if_splits)

lemma takeWhile_digits: "list_all is_digit ts \<Longrightarrow> takeWhile is_digit (ts @ ''.jpg'') = ts"
  by (induction ts) (simp_all add: is_digit_def)

lemma snapshot_date_named:
  assumes "re_search_group2 p = None" and "p \<noteq> []" and "is_word (last p)"
    and "ts \<noteq> []" and "list_all is_digit ts"
  shows "snapshot_date (p @ ts @ ''.jpg'') = strptime ts"
proof -
  obtain c cs where ts: "ts = c # cs" using assms(4) by (cases ts) auto
  have c: "is_digit c" using assms(5) ts by simp
  have "re_search_from False (p @ ts @ ''.jpg'') = re_search_from (is_word (last p)) (ts @ ''.jpg'')"
    using re_search_from_append [of False p "ts @ ''.jpg''"] assms(1,2)
    by (simp add: re_search_group2_def)
  also have "\<dots> = Some (takeWhile is_digit (ts @ ''.jpg''))"
    using assms(3) c by (simp add: ts)
  also have "\<dots> = Some ts" using assms(5) by (simp add: takeWhile_digits)
  finally show ?thesis by (simp add: snapshot_date_def re_search_group2_def)
qed

lemma snapshot_date_still:
  assumes "re_search_group2 p = None" and "p \<noteq> []" and "is_word (last p)" and "named_still p f"
  shows "snapshot_date f = still_date p f"
proof -
  let ?ts = "take 14 (drop (length p) f)"
  have l: "length f = length p + 18" and pre: "take (length p) f = p"
    and dg: "list_all is_digit ?ts" and ext: "drop (length p + 14) f = ''.jpg''"
    using assms(4) by (simp_all add: named_still_def)
  have 1: "f = take (length p) f @ drop (length p) f" by simp
  have 2: "drop (length p) f = ?ts @ drop 14 (drop (length p) f)"
    by (rule append_take_drop_id [symmetric])
  have 3: "drop 14 (drop (length p) f) = ''.jpg''" using ext by (simp add: add.commute)
  have f: "f = p @ ?ts @ ''.jpg''" using 1 2 3 pre by metis
  have ne: "?ts \<noteq> []" using l by auto
  show ?thesis
    using snapshot_date_named [OF assms(1,2,3) ne dg] f by (simp add: still_date_def)
qed

subsection \<open>The purge and the assembly on the paths a pattern matches\<close>

text \<open>
  What \<^verbatim>\<open>purge_snapshots\<close> and \<^verbatim>\<open>make_lapse\<close> do with the paths a camera's pattern matches,
  with the date the purge reads off a path.  Whether these paths are the camera's own
  stills, and whether that date is the timestamp in the name, is not said here.
\<close>

lemma purge_matched_paths:
  assumes thr: "minus_hours now (purge_duration_hours self) = Inr threshold"
    and c: "c \<in> set (camera_names self)"
    and f: "f \<in> set (glob_jpg (files w) (snapshot_path self @ c))"
    and d: "snapshot_date f = Inr d"
  shows "(threshold \<le> d \<longrightarrow> f \<in> set (files (fst (purge_snapshots self now w))))
       \<and> ((\<forall>c\<in>set (camera_names self). \<forall>g\<in>set (glob_jpg (files w) (snapshot_path self @ c)).
              \<exists>t. snapshot_date g = Inr t)
            \<longrightarrow> (d < threshold \<longrightarrow> f \<notin> set (files (fst (purge_snapshots self now w))))
                \<and> snd (purge_snapshots self now w) = None)"
proof -
  let ?v = "purge_verdict self now"
  let ?ms = "map (\<lambda>c. glob_match (snapshot_path self @ c)) (camera_names self)"
  have vf: "?v f = Inr (d < threshold)" using d thr by (simp add: purge_verdict_def)
  have fin: "f \<in> set (files w)" "glob_match (snapshot_path self @ c) f"
    using f by (simp_all add: glob_jpg_def)
  have keep: "threshold \<le> d \<longrightarrow> f \<in> set (files (fst (purge_snapshots self now w)))"
  proof
    assume "threshold \<le> d"
    then have "?v f \<noteq> Inr True" using vf by simp
    with fin(1) have "f \<in> set (fst (cams_run ?v ?ms (files w)))" by (rule cams_run_keeps)
    then show "f \<in> set (files (fst (purge_snapshots self now w)))" by (simp add: purge_snapshots_proj)
  qed
  have remove: "(d < threshold \<longrightarrow> f \<notin> set (files (fst (purge_snapshots self now w))))
                \<and> snd (purge_snapshots self now w) = None"
    if inv: "\<forall>c\<in>set (camera_names self). \<forall>g\<in>set (glob_jpg (files w) (snapshot_path self @ c)).
              \<exists>t. snapshot_date g = Inr t"
  proof -
    have ok: "\<forall>m\<in>set ?ms. \<forall>g\<in>set (files w). m g \<longrightarrow> \<not> isl (?v g)"
    proof (intro ballI impI)
      fix m g assume "m \<in> set ?ms" "g \<in> set (files w)" "m g"
      then obtain c' where "c' \<in> set (camera_names self)" "g \<in> set (glob_jpg (files w) (snapshot_path self @ c'))"
        by (auto simp add: glob_jpg_def)
      with inv obtain t where "snapshot_date g = Inr t" by blast
      then show "\<not> isl (?v g)" using thr by (simp add: purge_verdict_def)
    qed
    have run: "cams_run ?v ?ms (files w)
        = (filter (\<lambda>f. \<not> (\<exists>m\<in>set ?ms. m f \<and> ?v f = Inr True)) (files w), None)"
      using cams_run_all_ok [OF ok] .
    have 1: "d < threshold \<longrightarrow> f \<notin> set (files (fst (purge_snapshots self now w)))"
      using c fin vf by (auto simp add: purge_snapshots_proj run)
    have 2: "snd (purge_snapshots self now w) = None"
      by (simp add: purge_snapshots_proj run)
    show ?thesis using 1 2 by blast
  qed
  show ?thesis using keep remove by blast
qed

lemma make_lapse_matched_paths:
  assumes "lapse_duration self \<noteq> 0"
    and "\<forall>c\<in>set (camera_names self). \<forall>f\<in>set (glob_jpg (files w) (snapshot_path self @ c)). imread f = None"
  shows "snd (make_lapse self imread w) = None
       \<and> encoded (fst (make_lapse self imread w))
           = encoded w @ map (\<lambda>c. (snapshot_path self @ c @ ''.gif'',
                                   sort (glob_jpg (files w) (snapshot_path self @ c)),
                                   of_nat (length (glob_jpg (files w) (snapshot_path self @ c))) / lapse_duration self))
               (filter (\<lambda>c. glob_jpg (files w) (snapshot_path self @ c) \<noteq> []) (camera_names self))
       \<and> (\<forall>c\<in>set (camera_names self).
            (\<forall>f\<in>set (glob_jpg (files w) (snapshot_path self @ c)). named_still (snapshot_path self @ c @ ''_'') f)
            \<longrightarrow> sorted (map (\<lambda>f. projr (still_date (snapshot_path self @ c @ ''_'') f))
                         (sort (glob_jpg (files w) (snapshot_path self @ c)))))"
proof -
  let ?w0 = "logger INFO ''Making Time Lapses...'' w"
  have rd: "\<forall>c\<in>set (camera_names self). \<forall>f\<in>set (glob_jpg (files ?w0) (snapshot_path self @ c)). imread f = None"
    using assms(2) by simp
  have e: "lapse_entry self ?w0 = (\<lambda>c. (snapshot_path self @ c @ ''.gif'',
                                   sort (glob_jpg (files w) (snapshot_path self @ c)),
                                   of_nat (length (glob_jpg (files w) (snapshot_path self @ c))) / lapse_duration self))"
    by (simp add: lapse_entry_def fun_eq_iff)
  have order: "\<forall>c\<in>set (camera_names self).
            (\<forall>f\<in>set (glob_jpg (files w) (snapshot_path self @ c)). named_still (snapshot_path self @ c @ ''_'') f)
            \<longrightarrow> sorted (map (\<lambda>f. projr (still_date (snapshot_path self @ c @ ''_'') f))
                         (sort (glob_jpg (files w) (snapshot_path self @ c))))"
    using sorted_named_stills by blast
  show ?thesis
    using lapse_loop_encoded [OF assms(1) rd] order by (simp add: make_lapse_def e)
qed

lemma lapse_camera_nothing_matched:
  assumes "glob_jpg (files w) (snapshot_path self @ c) = []"
  shows "lapse_camera self imread c w = (logger DEBUG (''Found 0 images for '' @ c) w, None)
       \<and> files (fst (lapse_camera self imread c w)) = files w
       \<and> encoded (fst (lapse_camera self imread c w)) = encoded w
       \<and> commands (fst (lapse_camera self imread c w)) = commands w
       \<and> for_each (lapse_camera self imread) (c # cs) w
           = for_each (lapse_camera self imread) cs (logger DEBUG (''Found 0 images for '' @ c) w)"
  using assms by (simp add: lapse_camera_no_stills)

subsection \<open>The sample inputs\<close>

lemmas strptime_eval = strptime_def format_matches_def dir_Y_def dir_m_def dir_d_def dir_H_def
  dir_M_def dir_S_def two_chars_def one_char_def space_char_def rng_def is_digit_def digit_val_def
  mk_datetime_def days_in_month_def is_leap_def ymd2ord_def days_before_year_def
  days_before_month_def

lemmas snapshot_date_eval = snapshot_date_def re_search_group2_def is_word_def strptime_eval

lemma demo_glob:
  "glob_jpg demo_files ''./raw/Front_Door'' = demo_files"
  by (simp add: glob_jpg_def glob_match_def has_magic_def demo_files_def)

lemma shuffled_glob:
  "glob_jpg shuffled_files ''./raw/Front_Door'' = shuffled_files"
  by (simp add: glob_jpg_def glob_match_def has_magic_def shuffled_files_def)

lemma shuffled_sort: "sort shuffled_files = demo_files"
  by (simp add: shuffled_files_def demo_files_def)

lemma malformed_glob:
  "glob_jpg malformed_files ''./raw/Front_Door'' = malformed_files"
  by (simp add: glob_jpg_def glob_match_def has_magic_def malformed_files_def)

lemma demo_dates:
  "snapshot_date ''./raw/Front_Door_20200101000000.jpg'' = Inr 63713433600000000"
  "snapshot_date ''./raw/Front_Door_20200101000500.jpg'' = Inr 63713433900000000"
  "snapshot_date ''./raw/Front_Door_20200101001000.jpg'' = Inr 63713434200000000"
  "snapshot_date ''./raw/Front_Door_20200101000100.jpg'' = Inr 63713433660000000"
  "snapshot_date ''./raw/Front_Door_2020010100.jpg'' = Inl ValueError"
  by (simp_all add: snapshot_date_eval)

lemma demo_threshold: "minus_hours 63713520300000000 24 = Inr 63713433900000000"
  by (simp add: minus_hours_def max_datetime_def)

lemma demo_purge_files:
  "files (fst (purge_snapshots demo_self 63713520300000000 (fresh_world demo_files)))
     = [''./raw/Front_Door_20200101000500.jpg'', ''./raw/Front_Door_20200101001000.jpg'']"
  using demo_glob demo_threshold
  by (simp add: purge_snapshots_def purge_camera_def purge_file_def demo_self_def fresh_world_def
      demo_files_def demo_dates logger_def os_remove_def)

lemma malformed_purge:
  "purge_snapshots demo_self 63713520300000000 (fresh_world malformed_files)
     = (\<lparr>files = [''./raw/Front_Door_2020010100.jpg'', ''./raw/Front_Door_20200101000100.jpg''],
         logged = [(INFO, ''Purging Snapshots...''), (DEBUG, ''Purging ./raw/Front_Door_20200101000000.jpg'')],
         printed = [], calls = [], encoded = [], commands = []\<rparr>, Some ValueError)"
  using malformed_glob demo_threshold
  by (simp add: purge_snapshots_def purge_camera_def purge_file_def demo_self_def fresh_world_def
      malformed_files_def demo_dates logger_def os_remove_def)

lemma demo_null_then_ok:
  "for_each (snapshot_camera all_cameras_self [''base''] ''20200101001500'') [cam_null, cam_ok] w
     = (write_file ''./raw/Front_Door_20200101001500.jpg''
         (call_service (DownloadSnapshot ''https://arlo.example/snap'' ''./raw/Front_Door_20200101001500.jpg'')
           (call_service (TriggerFullFrameSnapshot ''Front Door'')
             (logger DEBUG ''Getting snapshot for Front_Door''
               (logger WARNING ''Returned None URL for Garage''
                 (call_service (TriggerFullFrameSnapshot ''Garage'')
                   (logger DEBUG ''Getting snapshot for Garage'' w)))))), None)"
  by (simp add: snapshot_camera_def get_snapshot_url_def Let_def all_cameras_self_def demo_self_def
      cam_null_def cam_ok_def replace_def)

lemma cam1_written:
  "files (snd (fst (get_snapshots cam1_self cam1_service ''20200101000000'' (fresh_world []))))
     = [''./raw/Cam1_20200101000000.jpg'']"
  by (simp add: get_snapshots_def get_snapshots_try_def snapshot_camera_def get_snapshot_url_def Let_def
      cam1_self_def demo_self_def cam1_service_def cam1_def replace_def fresh_world_def logger_def
      call_service_def write_file_def)

lemma cam1_date:
  "re_search_group2 ''./raw/Cam1_20200101000000.jpg'' = Some ''1''"
  "snapshot_date ''./raw/Cam1_20200101000000.jpg'' = Inl ValueError"
  "still_date ''./raw/Cam1_'' ''./raw/Cam1_20200101000000.jpg'' = Inr 63713433600000000"
  by (simp_all add: snapshot_date_eval still_date_def)

lemma cam1_glob:
  "glob_jpg [''./raw/Cam1_20200101000000.jpg''] ''./raw/Cam1'' = [''./raw/Cam1_20200101000000.jpg'']"
  by (simp add: glob_jpg_def glob_match_def has_magic_def)

lemma overlap_glob:
  "glob_jpg overlap_files ''./raw/Front'' = overlap_files"
  "glob_jpg overlap_files ''./raw/Front_Door'' = door_files"
  "glob_jpg door_files ''./raw/Front'' = door_files"
  "glob_jpg door_files ''./raw/Front_Door'' = door_files"
  by (simp_all add: glob_jpg_def glob_match_def has_magic_def overlap_files_def door_files_def)

lemma overlap_sort: "sort overlap_files = overlap_files" "sort door_files = door_files"
  by (simp_all add: overlap_files_def door_files_def)

lemma overlap_dates:
  "snapshot_date ''./raw/Front_20200101000500.jpg'' = Inr 63713433900000000"
  "snapshot_date ''./raw/Front_Door_20200101000000.jpg'' = Inr 63713433600000000"
  "snapshot_date ''./raw/Front_Door_20200101001000.jpg'' = Inr 63713434200000000"
  by (simp_all add: snapshot_date_eval)

lemma overlap_own:
  "filter (named_still ''./raw/Front_'') overlap_files = [''./raw/Front_20200101000500.jpg'']"
  "filter (named_still ''./raw/Front_'') door_files = []"
  by (simp_all add: overlap_files_def door_files_def named_still_def still_date_def strptime_eval)

lemma overlap_fields:
  "camera_names overlap_self = [''Front'', ''Front_Door'']" "snapshot_path overlap_self = ''./raw/''"
  "lapse_path overlap_self = ''./lapse/''" "lapse_duration overlap_self = 20"
  by (simp_all add: overlap_self_def demo_self_def)

lemma overlap_encoded:
  "encoded (fst (make_lapse overlap_self no_read_error (fresh_world overlap_files)))
     = [(''./raw/Front.gif'', overlap_files, 3 / 20), (''./raw/Front_Door.gif'', door_files, 1 / 10)]"
proof -
  have d: "lapse_duration overlap_self \<noteq> 0" by (simp add: overlap_fields)
  have rd: "\<forall>c\<in>set (camera_names overlap_self).
      \<forall>f\<in>set (glob_jpg (files (fresh_world overlap_files)) (snapshot_path overlap_self @ c)). no_read_error f = None"
    by (simp add: no_read_error_def)
  have n: "overlap_files \<noteq> []" "door_files \<noteq> []" "length overlap_files = 3" "length door_files = 2"
    by (simp_all add: overlap_files_def door_files_def)
  have w: "files (fresh_world overlap_files) = overlap_files" "encoded (fresh_world overlap_files) = []"
    by (simp_all add: fresh_world_def)
  show ?thesis
    using make_lapse_matched_paths [OF d rd]
    by (simp add: overlap_fields w overlap_glob overlap_sort n)
qed

lemma door_lapse:
  "make_lapse overlap_self no_read_error (fresh_world door_files)
     = (\<lparr>files = [''./raw/Front_Door_20200101000000.jpg'', ''./raw/Front_Door_20200101001000.jpg'',
                   ''./raw/Front.gif'', ''./lapse/Front.gif'', ''./raw/Front_Door.gif'',
                   ''./lapse/Front_Door.gif''],
         logged = [(INFO, ''Making Time Lapses...''), (DEBUG, ''Found 2 images for Front''),
                   (DEBUG, ''Found 2 images for Front_Door'')],
         printed = [], calls = [],
         encoded = [(''./raw/Front.gif'',
                     [''./raw/Front_Door_20200101000000.jpg'', ''./raw/Front_Door_20200101001000.jpg''], 1 / 10),
                    (''./raw/Front_Door.gif'',
                     [''./raw/Front_Door_20200101000000.jpg'', ''./raw/Front_Door_20200101001000.jpg''], 1 / 10)],
         commands = [''gifsicle -O3 --colors 128 --resize-width 512 ./raw/Front.gif > ./lapse/Front.gif'',
                     ''gifsicle -O3 --colors 128 --resize-width 512 ./raw/Front_Door.gif > ./lapse/Front_Door.gif'']\<rparr>,
        None)"
proof -
  have "str 2 = ''2''" by (simp add: str.simps [of 2] char_of_eq_iff)
  then have s2: "str (Suc (Suc 0)) = ''2''" by (simp add: numeral_2_eq_2)
  show ?thesis
    by (simp add: make_lapse_def lapse_camera_def Let_def overlap_self_def demo_self_def
        fresh_world_def door_files_def glob_jpg_def glob_match_def has_magic_def logger_def
        read_images_def no_read_error_def mimwrite_def os_system_def write_file_def s2)
qed

lemma str_small: "str 0 = ''0''" "str (Suc (Suc (Suc 0))) = ''3''"
proof -
  show "str 0 = ''0''" by (rule str_0)
  have "str 3 = ''3''" by (simp add: str.simps [of 3] char_of_eq_iff)
  then show "str (Suc (Suc (Suc 0))) = ''3''" by (simp add: numeral_3_eq_3)
qed

lemma full_init:
  "init full_cfg (fresh_world demo_files) = (logger INFO ''Initializing...'' (fresh_world demo_files), Inr unnamed_self)"
  by (simp add: init_def full_cfg_def demo_cfg_def unnamed_self_def demo_self_def dict_get_def
      LAPSE_PATH_def SNAPSHOT_PATH_def PURGE_DURATION_HOURS_def LAPSE_DURATION_def)

lemma broken_first:
  "for_each (snapshot_camera listed_self [''base''] ''20200102000500'') [cam_ok] w
     = (write_file ''./raw/Front_Door_20200102000500.jpg''
         (call_service (DownloadSnapshot ''https://arlo.example/snap'' ''./raw/Front_Door_20200102000500.jpg'')
           (call_service (TriggerFullFrameSnapshot ''Front Door'')
             (logger DEBUG ''Getting snapshot for Front_Door'' w))), None)"
  by (simp add: snapshot_camera_def get_snapshot_url_def Let_def listed_self_def demo_self_def
      cam_ok_def replace_def)

lemma new_date: "snapshot_date ''./raw/Front_Door_20200102000500.jpg'' = Inr 63713520300000000"
  by (simp add: snapshot_date_eval)

lemma listed_purge:
  "purge_snapshots listed_self 63713520300000000 after_acquisition = (after_purge, None)"
  using demo_threshold
  by (simp add: purge_snapshots_def purge_camera_def purge_file_def listed_self_def demo_self_def
      after_acquisition_def after_purge_def glob_jpg_def glob_match_def has_magic_def
      demo_dates new_date logger_def os_remove_def)

lemma listed_lapse:
  "make_lapse listed_self no_read_error after_purge
     = (after_purge
         \<lparr>files := files after_purge @ [''./raw/Front_Door.gif'', ''./lapse/Front_Door.gif''],
          logged := logged after_purge @ [(INFO, ''Making Time Lapses...''),
                (DEBUG, ''Found 3 images for Front_Door''), (DEBUG, ''Found 0 images for Back_Yard''),
                (DEBUG, ''Found 0 images for Garage'')],
          encoded := [(''./raw/Front_Door.gif'',
                       [''./raw/Front_Door_20200101000500.jpg'', ''./raw/Front_Door_20200101001000.jpg'',
                        ''./raw/Front_Door_20200102000500.jpg''], 3 / 20)],
          commands := [''gifsicle -O3 --colors 128 --resize-width 512 ./raw/Front_Door.gif > ./lapse/Front_Door.gif'']\<rparr>,
        None)"
  by (simp add: make_lapse_def lapse_camera_def Let_def listed_self_def demo_self_def
      after_purge_def after_acquisition_def glob_jpg_def glob_match_def has_magic_def logger_def
      read_images_def no_read_error_def mimwrite_def os_system_def write_file_def str_small)

section \<open>The claims\<close>

text \<open>
  \<^bold>\<open>C1.\<close>  The claim fails for a camera whose name holds a digit.  For the camera
  \<^verbatim>\<open>Cam1\<close>, \<^verbatim>\<open>get_snapshots\<close> at 00:00:00 of 2020-01-01 writes the still
  \<^verbatim>\<open>./raw/Cam1_20200101000000.jpg\<close>.  The still follows the naming scheme, and its
  fourteen digits are the date 2020-01-01 00:00:00, strictly before the threshold
  2020-01-01 00:05:00 of a purge at 00:05:00 of 2020-01-02 with 24 hours.  But the
  pattern of line 150 takes as timestamp the first run of digits that follows a letter
  or an underscore, here \<^verbatim>\<open>1\<close>, which \<^verbatim>\<open>strptime\<close> refuses: the purge raises \<open>ValueError\<close>
  and the still is not removed.  (On paths where that run is the timestamp, stills at
  or after the threshold stay and, when every matched path parses, older ones go:
  lemma \<open>purge_matched_paths\<close>.)
\<close>

theorem purge_camera_name_with_digit:
  "files (snd (fst (get_snapshots cam1_self cam1_service ''20200101000000'' (fresh_world []))))
     = [''./raw/Cam1_20200101000000.jpg'']
   \<and> named_still ''./raw/Cam1_'' ''./raw/Cam1_20200101000000.jpg''
   \<and> still_date ''./raw/Cam1_'' ''./raw/Cam1_20200101000000.jpg'' = Inr 63713433600000000
   \<and> minus_hours 63713520300000000 (purge_duration_hours cam1_self) = Inr 63713433900000000
   \<and> (63713433600000000 :: int) < 63713433900000000
   \<and> re_search_group2 ''./raw/Cam1_20200101000000.jpg'' = Some ''1''
   \<and> purge_snapshots cam1_self 63713520300000000 (fresh_world [''./raw/Cam1_20200101000000.jpg''])
       = (\<lparr>files = [''./raw/Cam1_20200101000000.jpg''], logged = [(INFO, ''Purging Snapshots...'')],
            printed = [], calls = [], encoded = [], commands = []\<rparr>, Some ValueError)"
proof -
  have n: "named_still ''./raw/Cam1_'' ''./raw/Cam1_20200101000000.jpg''"
    by (simp add: named_still_def cam1_date is_digit_def)
  have t: "minus_hours 63713520300000000 (purge_duration_hours cam1_self) = Inr 63713433900000000"
    using demo_threshold by (simp add: cam1_self_def demo_self_def)
  have p: "purge_snapshots cam1_self 63713520300000000 (fresh_world [''./raw/Cam1_20200101000000.jpg''])
       = (\<lparr>files = [''./raw/Cam1_20200101000000.jpg''], logged = [(INFO, ''Purging Snapshots...'')],
            printed = [], calls = [], encoded = [], commands = []\<rparr>, Some ValueError)"
    using cam1_glob
    by (simp add: purge_snapshots_def purge_camera_def purge_file_def cam1_self_def demo_self_def
        fresh_world_def logger_def cam1_date)
  show ?thesis using cam1_written n cam1_date t p by simp
qed

text \<open>
  \<^bold>\<open>C2.\<close>  The claim fails when the name of one configured camera begins the name of
  another.  With the cameras \<^verbatim>\<open>Front\<close> and \<^verbatim>\<open>Front_Door\<close>, a duration of 20 seconds, one
  still of \<^verbatim>\<open>Front\<close> (00:05) and two of \<^verbatim>\<open>Front_Door\<close> (00:00, 00:10), the pattern
  \<^verbatim>\<open>./raw/Front*.jpg\<close> of line 165 matches all three paths.  The encoder call for
  \<^verbatim>\<open>Front\<close> gets the three paths and the frame rate 3 / 20, where the camera has one
  still and the claim asks for 1 / 20; and the three paths, sorted by name, carry the
  times 00:05, 00:00, 00:10, which is not the order of the timestamps.  (For the paths
  a pattern matches the frame rate is their number over the duration, and stills of one
  prefix are sorted by timestamp: lemma \<open>make_lapse_matched_paths\<close>.)
\<close>

theorem make_lapse_counts_other_cameras_stills:
  "filter (named_still ''./raw/Front_'') overlap_files = [''./raw/Front_20200101000500.jpg'']
   \<and> encoded (fst (make_lapse overlap_self no_read_error (fresh_world overlap_files)))
       = [(''./raw/Front.gif'',
           [''./raw/Front_20200101000500.jpg'', ''./raw/Front_Door_20200101000000.jpg'',
            ''./raw/Front_Door_20200101001000.jpg''], 3 / 20),
          (''./raw/Front_Door.gif'',
           [''./raw/Front_Door_20200101000000.jpg'', ''./raw/Front_Door_20200101001000.jpg''], 1 / 10)]
   \<and> (3 / 20 :: rat) \<noteq> 1 / 20
   \<and> map snapshot_date [''./raw/Front_20200101000500.jpg'', ''./raw/Front_Door_20200101000000.jpg'',
            ''./raw/Front_Door_20200101001000.jpg'']
       = [Inr 63713433900000000, Inr 63713433600000000, Inr 63713434200000000]
   \<and> \<not> sorted [63713433900000000, 63713433600000000, 63713434200000000 :: int]"
  using overlap_own(1) overlap_encoded overlap_dates
  by (simp add: overlap_files_def door_files_def)

text \<open>
  \<^bold>\<open>C3.\<close>  When the service answers the login and both listings, the camera names
  \<^verbatim>\<open>get_snapshots\<close> leaves in the component are, as a set, the configured names that were
  also discovered; with no configured name they are the discovered names, as listed.
  Discovered names have their spaces replaced by underscores.
\<close>

theorem effective_cameras:
  assumes "login_reply arlo = None" and "basestations arlo = Inr bs" and "cameras arlo = Inr cams"
  shows "set (camera_names (fst (fst (get_snapshots self arlo ns w))))
           = (if camera_names self = [] then set (discovered cams)
              else set (camera_names self) \<inter> set (discovered cams))
       \<and> (camera_names self = [] \<longrightarrow> camera_names (fst (fst (get_snapshots self arlo ns w))) = discovered cams)"
  using assms by (auto simp add: get_snapshots_self get_snapshots_try_self effective_def)

text \<open>The same on a sample input.\<close>

theorem effective_cameras_witness:
  "set (camera_names (fst (fst (get_snapshots demo_self demo_service ''20200101001500'' (fresh_world [])))))
     = {''Front_Door''}
   \<and> camera_names (fst (fst (get_snapshots (demo_self\<lparr>camera_names := []\<rparr>) demo_service
        ''20200101001500'' (fresh_world []))))
     = [''Back_Yard'', ''Garage'', ''Front_Door'']"
proof -
  have l: "login_reply demo_service = None" and b: "basestations demo_service = Inr [''base'']"
    and c: "cameras demo_service = Inr [cam_timeout, cam_null, cam_ok]"
    by (simp_all add: demo_service_def)
  have d: "discovered [cam_timeout, cam_null, cam_ok] = [''Back_Yard'', ''Garage'', ''Front_Door'']"
    by (simp add: discovered_def cam_timeout_def cam_null_def cam_ok_def replace_def)
  show ?thesis
    using effective_cameras [OF l b c, of demo_self "''20200101001500''" "fresh_world []"]
      effective_cameras [OF l b c, of "demo_self\<lparr>camera_names := []\<rparr>" "''20200101001500''" "fresh_world []"]
    by (simp add: d demo_self_def)
qed

text \<open>
  \<^bold>\<open>C4.\<close>  A document without \<^verbatim>\<open>username\<close> or without \<^verbatim>\<open>password\<close> makes the constructor
  raise \<^verbatim>\<open>ValueError\<close>, and the run ends there: the service is never called, no file is
  touched, and the only trace is the constructor's first log line.
\<close>

theorem missing_credentials:
  assumes "cfg_username cfg = None \<or> cfg_password cfg = None"
  shows "snd (init cfg w) = Inl ValueError
       \<and> main cfg arlo imread ns now w = (logger INFO ''Initializing...'' w, Some ValueError)"
  using assms by (auto simp add: init_def main_def Let_def split: option.splits)

text \<open>The same on a sample input.\<close>

theorem missing_credentials_witness:
  "snd (init demo_cfg (fresh_world demo_files)) = Inl ValueError
   \<and> main demo_cfg demo_service no_read_error ''20200101001500'' 63713520300000000 (fresh_world demo_files)
       = (\<lparr>files = demo_files, logged = [(INFO, ''Initializing...'')], printed = [], calls = [],
            encoded = [], commands = []\<rparr>, Some ValueError)"
proof -
  have "cfg_username demo_cfg = None \<or> cfg_password demo_cfg = None" by (simp add: demo_cfg_def)
  from missing_credentials [OF this, of "fresh_world demo_files" demo_service no_read_error
      "''20200101001500''" 63713520300000000]
  show ?thesis by (simp add: fresh_world_def logger_def)
qed

text \<open>
  \<^bold>\<open>C5.\<close>  Let the service answer the login and both listings, with a base station, and
  let \<^verbatim>\<open>get_snapshots\<close> meet the selected camera \<open>cam\<close> after the cameras \<open>pre\<close>, which
  raised nothing, and before the cameras \<open>post\<close>; \<open>w1\<close> is the world after \<open>pre\<close>.  If the
  request for \<open>cam\<close> times out, or gives a null URL, the method logs the warning and
  goes on: what it returns is what its loop over \<open>post\<close> returns from the world with the
  warning, passed through the outer handler.  If the request raises any other exception,
  the method returns at once, with the world after the request and the exception
  printed: no camera of \<open>post\<close> is asked.  An exception of the login is printed in the
  same way, before any listing; and so is whatever exception leaves the \<^verbatim>\<open>try\<close> block,
  at whatever point, with the component and the world reached there.  No exception
  leaves \<^verbatim>\<open>get_snapshots\<close>.  And whenever the constructor succeeds, the run is the
  purge, then the assembly, then the closing log line, on the component and the world
  that \<^verbatim>\<open>get_snapshots\<close> returned.
\<close>

theorem acquisition_failure_policy:
  assumes "login_reply arlo = None" and "basestations arlo = Inr bs" and "bs \<noteq> []"
    and "cameras arlo = Inr (pre @ cam # post)"
    and "self' = self\<lparr>camera_names := effective (camera_names self) (discovered (pre @ cam # post))\<rparr>"
    and "for_each (snapshot_camera self' bs ns) pre (started self self' w) = (w1, None)"
    and "replace CHR '' '' CHR ''_'' (deviceName cam) \<in> set (camera_names self')"
  shows "(snapshot_reply cam = Inl TimeoutError \<longrightarrow>
            get_snapshots self arlo ns w
              = ((self', caught (for_each (snapshot_camera self' bs ns) post (warned ''Timeout '' cam w1))), None))
       \<and> (snapshot_reply cam = Inr None \<longrightarrow>
            get_snapshots self arlo ns w
              = ((self', caught (for_each (snapshot_camera self' bs ns) post
                                   (warned ''Returned None URL for '' cam w1))), None))
       \<and> (\<forall>e. snapshot_reply cam = Inl e \<and> e \<noteq> TimeoutError \<longrightarrow>
            get_snapshots self arlo ns w
              = ((self', (requested cam w1)\<lparr>printed := printed (requested cam w1) @ [e]\<rparr>), None))
       \<and> (\<forall>e. login_reply arlo0 = Some e \<longrightarrow>
            get_snapshots self0 arlo0 ns0 w0
              = ((self0, (call_service (Login (username self0) (password self0))
                            (logger INFO ''Getting snapshots...'' w0))\<lparr>printed := printed w0 @ [e]\<rparr>), None))
       \<and> (\<forall>sw e. get_snapshots_try self0 arlo0 ns0 (logger INFO ''Getting snapshots...'' w0) = (sw, Some e) \<longrightarrow>
            get_snapshots self0 arlo0 ns0 w0 = ((fst sw, (snd sw)\<lparr>printed := printed (snd sw) @ [e]\<rparr>), None))
       \<and> snd (get_snapshots self0 arlo0 ns0 w0) = None
       \<and> (\<forall>wi g. init cfg w0 = (wi, Inr g) \<longrightarrow>
            main cfg arlo0 imread ns0 now w0
              = (case purge_snapshots (fst (fst (get_snapshots g arlo0 ns0 wi))) now
                        (snd (fst (get_snapshots g arlo0 ns0 wi))) of
                   (w3, Some e) \<Rightarrow> (w3, Some e)
                 | (w3, None) \<Rightarrow>
                     (case make_lapse (fst (fst (get_snapshots g arlo0 ns0 wi))) imread w3 of
                        (w4, Some e) \<Rightarrow> (w4, Some e)
                      | (w4, None) \<Rightarrow> (logger INFO ''Script complete.'' w4, None))))"
proof -
  note loop = get_snapshots_loop [OF assms(1,2,4,5), of ns w]
  have split: "for_each (snapshot_camera self' bs ns) (pre @ cam # post) (started self self' w)
      = (case snapshot_camera self' bs ns cam w1 of
           (w', Some e) \<Rightarrow> (w', Some e)
         | (w', None) \<Rightarrow> for_each (snapshot_camera self' bs ns) post w')"
    using assms(6) by (simp add: for_each_append)
  have 1: "snapshot_reply cam = Inl TimeoutError \<longrightarrow>
            get_snapshots self arlo ns w
              = ((self', caught (for_each (snapshot_camera self' bs ns) post (warned ''Timeout '' cam w1))), None)"
    using snapshot_camera_timeout [OF assms(7,3), of ns w1]
    by (simp add: loop split warned_def requested_def)
  have 2: "snapshot_reply cam = Inr None \<longrightarrow>
            get_snapshots self arlo ns w
              = ((self', caught (for_each (snapshot_camera self' bs ns) post
                                   (warned ''Returned None URL for '' cam w1))), None)"
    using snapshot_camera_null_url [OF assms(7,3), of ns w1]
    by (simp add: loop split warned_def requested_def)
  have 3: "\<forall>e. snapshot_reply cam = Inl e \<and> e \<noteq> TimeoutError \<longrightarrow>
            get_snapshots self arlo ns w
              = ((self', (requested cam w1)\<lparr>printed := printed (requested cam w1) @ [e]\<rparr>), None)"
    using snapshot_camera_other [OF assms(7,3), of _ ns w1]
    by (simp add: loop split requested_def caught_def)
  have 4: "\<forall>e. login_reply arlo0 = Some e \<longrightarrow>
            get_snapshots self0 arlo0 ns0 w0
              = ((self0, (call_service (Login (username self0) (password self0))
                            (logger INFO ''Getting snapshots...'' w0))\<lparr>printed := printed w0 @ [e]\<rparr>), None)"
    using get_snapshots_login_fails by blast
  have h: "\<forall>sw e. get_snapshots_try self0 arlo0 ns0 (logger INFO ''Getting snapshots...'' w0) = (sw, Some e) \<longrightarrow>
            get_snapshots self0 arlo0 ns0 w0 = ((fst sw, (snd sw)\<lparr>printed := printed (snd sw) @ [e]\<rparr>), None)"
    using get_snapshots_caught by blast
  have 5: "snd (get_snapshots self0 arlo0 ns0 w0) = None"
    by (rule get_snapshots_never_raises)
  have 6: "\<forall>wi g. init cfg w0 = (wi, Inr g) \<longrightarrow>
            main cfg arlo0 imread ns0 now w0
              = (case purge_snapshots (fst (fst (get_snapshots g arlo0 ns0 wi))) now
                        (snd (fst (get_snapshots g arlo0 ns0 wi))) of
                   (w3, Some e) \<Rightarrow> (w3, Some e)
                 | (w3, None) \<Rightarrow>
                     (case make_lapse (fst (fst (get_snapshots g arlo0 ns0 wi))) imread w3 of
                        (w4, Some e) \<Rightarrow> (w4, Some e)
                      | (w4, None) \<Rightarrow> (logger INFO ''Script complete.'' w4, None)))"
    using main_runs_purge_and_lapse by blast
  show ?thesis using 1 2 3 4 h 5 6 by blast
qed

text \<open>
  The same on sample inputs: an acquisition with a timeout, a null URL and a camera
  that works; one in which the first camera works, the request for the second raises
  and the third is never asked; one whose login is refused; and the whole run on the
  second of these, which goes on to purge the oldest still and to assemble the three
  that remain.
\<close>

theorem acquisition_failure_policy_witness:
  "get_snapshots all_cameras_self demo_service ''20200101001500'' (fresh_world [])
     = ((all_cameras_self,
         \<lparr>files = [''./raw/Front_Door_20200101001500.jpg''],
          logged = [(INFO, ''Getting snapshots...''), (DEBUG, ''Checking if given camera names are in Arlo''),
                    (DEBUG, ''Final list of cameras: Back_Yard, Garage, Front_Door''),
                    (DEBUG, ''Getting snapshot for Back_Yard''), (WARNING, ''Timeout Back_Yard''),
                    (DEBUG, ''Getting snapshot for Garage''), (WARNING, ''Returned None URL for Garage''),
                    (DEBUG, ''Getting snapshot for Front_Door'')],
          printed = [],
          calls = [Login ''user'' ''secret'', GetDevices ''basestation'', GetDevices ''camera'',
                   TriggerFullFrameSnapshot ''Back Yard'', TriggerFullFrameSnapshot ''Garage'',
                   TriggerFullFrameSnapshot ''Front Door'',
                   DownloadSnapshot ''https://arlo.example/snap'' ''./raw/Front_Door_20200101001500.jpg''],
          encoded = [], commands = []\<rparr>), None)
   \<and> get_snapshots unnamed_self broken_service ''20200102000500''
        (logger INFO ''Initializing...'' (fresh_world demo_files))
     = ((listed_self,
         \<lparr>files = [''./raw/Front_Door_20200101000000.jpg'', ''./raw/Front_Door_20200101000500.jpg'',
                   ''./raw/Front_Door_20200101001000.jpg'', ''./raw/Front_Door_20200102000500.jpg''],
          logged = [(INFO, ''Initializing...''), (INFO, ''Getting snapshots...''),
                    (DEBUG, ''No camera names given, getting from Arlo''),
                    (DEBUG, ''Final list of cameras: Front_Door, Back_Yard, Garage''),
                    (DEBUG, ''Getting snapshot for Front_Door''), (DEBUG, ''Getting snapshot for Back_Yard'')],
          printed = [ServiceError ''connection reset''],
          calls = [Login ''user'' ''secret'', GetDevices ''basestation'', GetDevices ''camera'',
                   TriggerFullFrameSnapshot ''Front Door'',
                   DownloadSnapshot ''https://arlo.example/snap'' ''./raw/Front_Door_20200102000500.jpg'',
                   TriggerFullFrameSnapshot ''Back Yard''],
          encoded = [], commands = []\<rparr>), None)
   \<and> get_snapshots demo_self locked_service ''20200102000500'' (fresh_world demo_files)
     = ((demo_self,
         \<lparr>files = demo_files, logged = [(INFO, ''Getting snapshots...'')],
          printed = [ServiceError ''bad credentials''], calls = [Login ''user'' ''secret''],
          encoded = [], commands = []\<rparr>), None)
   \<and> main full_cfg broken_service no_read_error ''20200102000500'' 63713520300000000 (fresh_world demo_files)
     = (\<lparr>files = [''./raw/Front_Door_20200101000500.jpg'', ''./raw/Front_Door_20200101001000.jpg'',
                  ''./raw/Front_Door_20200102000500.jpg'', ''./raw/Front_Door.gif'', ''./lapse/Front_Door.gif''],
         logged = [(INFO, ''Initializing...''), (INFO, ''Getting snapshots...''),
                   (DEBUG, ''No camera names given, getting from Arlo''),
                   (DEBUG, ''Final list of cameras: Front_Door, Back_Yard, Garage''),
                   (DEBUG, ''Getting snapshot for Front_Door''), (DEBUG, ''Getting snapshot for Back_Yard''),
                   (INFO, ''Purging Snapshots...''), (DEBUG, ''Purging ./raw/Front_Door_20200101000000.jpg''),
                   (INFO, ''Making Time Lapses...''), (DEBUG, ''Found 3 images for Front_Door''),
                   (DEBUG, ''Found 0 images for Back_Yard''), (DEBUG, ''Found 0 images for Garage''),
                   (INFO, ''Script complete.'')],
         printed = [ServiceError ''connection reset''],
         calls = [Login ''user'' ''secret'', GetDevices ''basestation'', GetDevices ''camera'',
                  TriggerFullFrameSnapshot ''Front Door'',
                  DownloadSnapshot ''https://arlo.example/snap'' ''./raw/Front_Door_20200102000500.jpg'',
                  TriggerFullFrameSnapshot ''Back Yard''],
         encoded = [(''./raw/Front_Door.gif'',
                     [''./raw/Front_Door_20200101000500.jpg'', ''./raw/Front_Door_20200101001000.jpg'',
                      ''./raw/Front_Door_20200102000500.jpg''], 3 / 20)],
         commands = [''gifsicle -O3 --colors 128 --resize-width 512 ./raw/Front_Door.gif > ./lapse/Front_Door.gif'']\<rparr>,
        None)"
proof -
  have bs: "[''base''] \<noteq> []" by simp
  \<comment> \<open>a timeout, then a null URL, then a camera that works\<close>
  have a1: "login_reply demo_service = None" "basestations demo_service = Inr [''base'']"
    "cameras demo_service = Inr ([] @ cam_timeout # [cam_null, cam_ok])"
    by (simp_all add: demo_service_def)
  have a2: "all_cameras_self = all_cameras_self\<lparr>camera_names :=
      effective (camera_names all_cameras_self) (discovered ([] @ cam_timeout # [cam_null, cam_ok]))\<rparr>"
    by (simp add: all_cameras_self_def demo_self_def effective_def discovered_def replace_def
        cam_timeout_def cam_null_def cam_ok_def)
  have a3: "for_each (snapshot_camera all_cameras_self [''base''] ''20200101001500'') []
      (started all_cameras_self all_cameras_self (fresh_world []))
    = (started all_cameras_self all_cameras_self (fresh_world []), None)"
    by simp
  have a4: "replace CHR '' '' CHR ''_'' (deviceName cam_timeout) \<in> set (camera_names all_cameras_self)"
    by (simp add: cam_timeout_def all_cameras_self_def replace_def)
  have t: "snapshot_reply cam_timeout = Inl TimeoutError" by (simp add: cam_timeout_def)
  have A: "get_snapshots all_cameras_self demo_service ''20200101001500'' (fresh_world [])
      = ((all_cameras_self, caught (for_each (snapshot_camera all_cameras_self [''base''] ''20200101001500'')
            [cam_null, cam_ok]
            (warned ''Timeout '' cam_timeout (started all_cameras_self all_cameras_self (fresh_world []))))), None)"
    using acquisition_failure_policy [OF a1(1) a1(2) bs a1(3) a2 a3 a4] t by blast
  have 1: "get_snapshots all_cameras_self demo_service ''20200101001500'' (fresh_world [])
     = ((all_cameras_self,
         \<lparr>files = [''./raw/Front_Door_20200101001500.jpg''],
          logged = [(INFO, ''Getting snapshots...''), (DEBUG, ''Checking if given camera names are in Arlo''),
                    (DEBUG, ''Final list of cameras: Back_Yard, Garage, Front_Door''),
                    (DEBUG, ''Getting snapshot for Back_Yard''), (WARNING, ''Timeout Back_Yard''),
                    (DEBUG, ''Getting snapshot for Garage''), (WARNING, ''Returned None URL for Garage''),
                    (DEBUG, ''Getting snapshot for Front_Door'')],
          printed = [],
          calls = [Login ''user'' ''secret'', GetDevices ''basestation'', GetDevices ''camera'',
                   TriggerFullFrameSnapshot ''Back Yard'', TriggerFullFrameSnapshot ''Garage'',
                   TriggerFullFrameSnapshot ''Front Door'',
                   DownloadSnapshot ''https://arlo.example/snap'' ''./raw/Front_Door_20200101001500.jpg''],
          encoded = [], commands = []\<rparr>), None)"
    unfolding A demo_null_then_ok
    by (simp add: caught_def warned_def requested_def started_def all_cameras_self_def demo_self_def
        cam_timeout_def replace_def fresh_world_def logger_def call_service_def write_file_def)
  \<comment> \<open>a camera that works, then one whose request raises, then one that is never asked\<close>
  let ?w = "logger INFO ''Initializing...'' (fresh_world demo_files)"
  let ?w1 = "write_file ''./raw/Front_Door_20200102000500.jpg''
         (call_service (DownloadSnapshot ''https://arlo.example/snap'' ''./raw/Front_Door_20200102000500.jpg'')
           (call_service (TriggerFullFrameSnapshot ''Front Door'')
             (logger DEBUG ''Getting snapshot for Front_Door'' (started unnamed_self listed_self ?w))))"
  have b1: "login_reply broken_service = None" "basestations broken_service = Inr [''base'']"
    "cameras broken_service = Inr ([cam_ok] @ cam_broken # [cam_null])"
    by (simp_all add: broken_service_def)
  have b2: "listed_self = unnamed_self\<lparr>camera_names :=
      effective (camera_names unnamed_self) (discovered ([cam_ok] @ cam_broken # [cam_null]))\<rparr>"
    by (simp add: listed_self_def unnamed_self_def demo_self_def effective_def discovered_def replace_def
        cam_broken_def cam_null_def cam_ok_def)
  have b3: "for_each (snapshot_camera listed_self [''base''] ''20200102000500'') [cam_ok]
      (started unnamed_self listed_self ?w) = (?w1, None)"
    by (rule broken_first)
  have b4: "replace CHR '' '' CHR ''_'' (deviceName cam_broken) \<in> set (camera_names listed_self)"
    by (simp add: cam_broken_def listed_self_def replace_def)
  have e: "snapshot_reply cam_broken = Inl (ServiceError ''connection reset'')
      \<and> ServiceError ''connection reset'' \<noteq> TimeoutError"
    by (simp add: cam_broken_def)
  note pol = acquisition_failure_policy [OF b1(1) b1(2) bs b1(3) b2 b3 b4,
      of broken_service _ _ "fresh_world demo_files" full_cfg no_read_error 63713520300000000]
  have B: "get_snapshots unnamed_self broken_service ''20200102000500'' ?w
      = ((listed_self, (requested cam_broken ?w1)\<lparr>printed := printed (requested cam_broken ?w1)
            @ [ServiceError ''connection reset'']\<rparr>), None)"
    using pol e by blast
  have w2: "(requested cam_broken ?w1)\<lparr>printed := printed (requested cam_broken ?w1)
            @ [ServiceError ''connection reset'']\<rparr> = after_acquisition"
    by (simp add: requested_def started_def unnamed_self_def listed_self_def demo_self_def
        cam_broken_def replace_def fresh_world_def demo_files_def logger_def call_service_def
        write_file_def after_acquisition_def)
  have 2: "get_snapshots unnamed_self broken_service ''20200102000500'' ?w
      = ((listed_self, after_acquisition), None)"
    using B w2 by simp
  have C: "main full_cfg broken_service no_read_error ''20200102000500'' 63713520300000000 (fresh_world demo_files)
      = (case purge_snapshots (fst (fst (get_snapshots unnamed_self broken_service ''20200102000500'' ?w)))
                63713520300000000
                (snd (fst (get_snapshots unnamed_self broken_service ''20200102000500'' ?w))) of
           (w3, Some e) \<Rightarrow> (w3, Some e)
         | (w3, None) \<Rightarrow>
             (case make_lapse (fst (fst (get_snapshots unnamed_self broken_service ''20200102000500'' ?w)))
                     no_read_error w3 of
                (w4, Some e) \<Rightarrow> (w4, Some e)
              | (w4, None) \<Rightarrow> (logger INFO ''Script complete.'' w4, None)))"
    using pol [of _ "''20200102000500''"] full_init by blast
  have 3: "main full_cfg broken_service no_read_error ''20200102000500'' 63713520300000000 (fresh_world demo_files)
     = (\<lparr>files = [''./raw/Front_Door_20200101000500.jpg'', ''./raw/Front_Door_20200101001000.jpg'',
                  ''./raw/Front_Door_20200102000500.jpg'', ''./raw/Front_Door.gif'', ''./lapse/Front_Door.gif''],
         logged = [(INFO, ''Initializing...''), (INFO, ''Getting snapshots...''),
                   (DEBUG, ''No camera names given, getting from Arlo''),
                   (DEBUG, ''Final list of cameras: Front_Door, Back_Yard, Garage''),
                   (DEBUG, ''Getting snapshot for Front_Door''), (DEBUG, ''Getting snapshot for Back_Yard''),
                   (INFO, ''Purging Snapshots...''), (DEBUG, ''Purging ./raw/Front_Door_20200101000000.jpg''),
                   (INFO, ''Making Time Lapses...''), (DEBUG, ''Found 3 images for Front_Door''),
                   (DEBUG, ''Found 0 images for Back_Yard''), (DEBUG, ''Found 0 images for Garage''),
                   (INFO, ''Script complete.'')],
         printed = [ServiceError ''connection reset''],
         calls = [Login ''user'' ''secret'', GetDevices ''basestation'', GetDevices ''camera'',
                  TriggerFullFrameSnapshot ''Front Door'',
                  DownloadSnapshot ''https://arlo.example/snap'' ''./raw/Front_Door_20200102000500.jpg'',
                  TriggerFullFrameSnapshot ''Back Yard''],
         encoded = [(''./raw/Front_Door.gif'',
                     [''./raw/Front_Door_20200101000500.jpg'', ''./raw/Front_Door_20200101001000.jpg'',
                      ''./raw/Front_Door_20200102000500.jpg''], 3 / 20)],
         commands = [''gifsicle -O3 --colors 128 --resize-width 512 ./raw/Front_Door.gif > ./lapse/Front_Door.gif'']\<rparr>,
        None)"
    unfolding C 2 fst_conv snd_conv listed_purge prod.case option.case listed_lapse
    by (simp add: after_purge_def after_acquisition_def logger_def)
  have snaps: "get_snapshots unnamed_self broken_service ''20200102000500'' ?w
     = ((listed_self,
         \<lparr>files = [''./raw/Front_Door_20200101000000.jpg'', ''./raw/Front_Door_20200101000500.jpg'',
                   ''./raw/Front_Door_20200101001000.jpg'', ''./raw/Front_Door_20200102000500.jpg''],
          logged = [(INFO, ''Initializing...''), (INFO, ''Getting snapshots...''),
                    (DEBUG, ''No camera names given, getting from Arlo''),
                    (DEBUG, ''Final list of cameras: Front_Door, Back_Yard, Garage''),
                    (DEBUG, ''Getting snapshot for Front_Door''), (DEBUG, ''Getting snapshot for Back_Yard'')],
          printed = [ServiceError ''connection reset''],
          calls = [Login ''user'' ''secret'', GetDevices ''basestation'', GetDevices ''camera'',
                   TriggerFullFrameSnapshot ''Front Door'',
                   DownloadSnapshot ''https://arlo.example/snap'' ''./raw/Front_Door_20200102000500.jpg'',
                   TriggerFullFrameSnapshot ''Back Yard''],
          encoded = [], commands = []\<rparr>), None)"
    using 2 by (simp add: after_acquisition_def)
  \<comment> \<open>a login that is refused\<close>
  have l: "get_snapshots_try demo_self locked_service ''20200102000500''
        (logger INFO ''Getting snapshots...'' (fresh_world demo_files))
      = ((demo_self, call_service (Login ''user'' ''secret'')
            (logger INFO ''Getting snapshots...'' (fresh_world demo_files))),
         Some (ServiceError ''bad credentials''))"
    by (simp add: get_snapshots_try_def Let_def locked_service_def demo_service_def demo_self_def)
  have L: "get_snapshots demo_self locked_service ''20200102000500'' (fresh_world demo_files)
      = ((fst (demo_self, call_service (Login ''user'' ''secret'')
                 (logger INFO ''Getting snapshots...'' (fresh_world demo_files))),
          (snd (demo_self, call_service (Login ''user'' ''secret'')
                 (logger INFO ''Getting snapshots...'' (fresh_world demo_files))))
            \<lparr>printed := printed (snd (demo_self, call_service (Login ''user'' ''secret'')
                 (logger INFO ''Getting snapshots...'' (fresh_world demo_files))))
               @ [ServiceError ''bad credentials'']\<rparr>), None)"
    using acquisition_failure_policy [OF a1(1) a1(2) bs a1(3) a2 a3 a4,
        of locked_service demo_self "''20200102000500''" "fresh_world demo_files"] l
    by blast
  have 4: "get_snapshots demo_self locked_service ''20200102000500'' (fresh_world demo_files)
     = ((demo_self,
         \<lparr>files = demo_files, logged = [(INFO, ''Getting snapshots...'')],
          printed = [ServiceError ''bad credentials''], calls = [Login ''user'' ''secret''],
          encoded = [], commands = []\<rparr>), None)"
    unfolding L by (simp add: fresh_world_def logger_def call_service_def)
  show ?thesis using 1 snaps 4 3 by simp
qed

text \<open>
  \<^bold>\<open>C6.\<close>  Purging again, with the same clock reading and no file added in between,
  leaves the files the first purge left.  This holds whether or not the purge raised.
\<close>

theorem purge_idempotent:
  "files (fst (purge_snapshots self now (fst (purge_snapshots self now w))))
     = files (fst (purge_snapshots self now w))"
proof -
  let ?v = "purge_verdict self now"
  let ?ms = "map (\<lambda>c. glob_match (snapshot_path self @ c)) (camera_names self)"
  obtain F' r where run: "cams_run ?v ?ms (files w) = (F', r)" by (cases "cams_run ?v ?ms (files w)")
  then have 1: "files (fst (purge_snapshots self now w)) = F'" by (simp add: purge_snapshots_proj)
  have "cams_run ?v ?ms F' = (F', r)" using cams_run_idem [OF run] .
  then show ?thesis using 1 by (simp add: purge_snapshots_proj)
qed

text \<open>The same on a sample input.\<close>

theorem purge_idempotent_witness:
  "files (fst (purge_snapshots demo_self 63713520300000000
      (fst (purge_snapshots demo_self 63713520300000000 (fresh_world demo_files)))))
     = [''./raw/Front_Door_20200101000500.jpg'', ''./raw/Front_Door_20200101001000.jpg'']"
  using purge_idempotent [of demo_self 63713520300000000 "fresh_world demo_files"] demo_purge_files
  by simp

text \<open>
  \<^bold>\<open>C7.\<close>  The claim fails when the name of a configured camera begins the name of
  another.  With the cameras \<^verbatim>\<open>Front\<close> and \<^verbatim>\<open>Front_Door\<close> and two stills, both of
  \<^verbatim>\<open>Front_Door\<close>, the camera \<^verbatim>\<open>Front\<close> has no still; but the pattern \<^verbatim>\<open>./raw/Front*.jpg\<close> of
  line 165 matches the two stills of \<^verbatim>\<open>Front_Door\<close>, and \<^verbatim>\<open>make_lapse\<close> logs two images
  for \<^verbatim>\<open>Front\<close>, calls the encoder and the shell for it and creates
  \<^verbatim>\<open>./raw/Front.gif\<close> and \<^verbatim>\<open>./lapse/Front.gif\<close>.  (A camera whose pattern matches no path
  is skipped with one debug line and no other effect: lemma
  \<open>lapse_camera_nothing_matched\<close>.)
\<close>

theorem make_lapse_writes_for_camera_without_stills:
  "filter (named_still ''./raw/Front_'') door_files = []
   \<and> ''./raw/Front.gif'' \<notin> set door_files \<and> ''./lapse/Front.gif'' \<notin> set door_files
   \<and> make_lapse overlap_self no_read_error (fresh_world door_files)
     = (\<lparr>files = [''./raw/Front_Door_20200101000000.jpg'', ''./raw/Front_Door_20200101001000.jpg'',
                   ''./raw/Front.gif'', ''./lapse/Front.gif'', ''./raw/Front_Door.gif'',
                   ''./lapse/Front_Door.gif''],
         logged = [(INFO, ''Making Time Lapses...''), (DEBUG, ''Found 2 images for Front''),
                   (DEBUG, ''Found 2 images for Front_Door'')],
         printed = [], calls = [],
         encoded = [(''./raw/Front.gif'',
                     [''./raw/Front_Door_20200101000000.jpg'', ''./raw/Front_Door_20200101001000.jpg''], 1 / 10),
                    (''./raw/Front_Door.gif'',
                     [''./raw/Front_Door_20200101000000.jpg'', ''./raw/Front_Door_20200101001000.jpg''], 1 / 10)],
         commands = [''gifsicle -O3 --colors 128 --resize-width 512 ./raw/Front.gif > ./lapse/Front.gif'',
                     ''gifsicle -O3 --colors 128 --resize-width 512 ./raw/Front_Door.gif > ./lapse/Front_Door.gif'']\<rparr>,
        None)"
  using overlap_own(2) door_lapse by (simp add: door_files_def)

text \<open>
  \<^bold>\<open>C8.\<close>  If a path matched for a configured camera does not parse (and the threshold
  is a date), \<^verbatim>\<open>purge_snapshots\<close> raises: it stops at the first path \<open>bad'\<close> that does not
  parse, with that path's exception, and the world it leaves is the one reached after
  the paths before \<open>bad'\<close> were handled, removals included.
\<close>

theorem purge_parse_failure_propagates:
  assumes c: "c \<in> set (camera_names self)"
    and bad: "bad \<in> set (glob_jpg (files w) (snapshot_path self @ c))"
    and e: "snapshot_date bad = Inl e"
    and thr: "minus_hours now (purge_duration_hours self) = Inr threshold"
  shows "\<exists>w' e' cs1 c' cs2 w1 fl1 bad' fl2.
           purge_snapshots self now w = (w', Some e')
         \<and> camera_names self = cs1 @ c' # cs2
         \<and> for_each (purge_camera self now) cs1 (logger INFO ''Purging Snapshots...'' w) = (w1, None)
         \<and> glob_jpg (files w1) (snapshot_path self @ c') = fl1 @ bad' # fl2
         \<and> for_each (purge_file self now) fl1 w1 = (w', None)
         \<and> snapshot_date bad' = Inl e'"
proof -
  let ?v = "purge_verdict self now"
  let ?ms = "map (\<lambda>c. glob_match (snapshot_path self @ c)) (camera_names self)"
  let ?w0 = "logger INFO ''Purging Snapshots...'' w"
  have "glob_match (snapshot_path self @ c) \<in> set ?ms" using c by simp
  moreover have "bad \<in> set (files w)" "glob_match (snapshot_path self @ c) bad"
    using bad by (simp_all add: glob_jpg_def)
  moreover have "isl (?v bad)" using e by (simp add: purge_verdict_def)
  ultimately have "snd (cams_run ?v ?ms (files w)) \<noteq> None" by (rule cams_run_bad)
  then have "snd (purge_snapshots self now w) \<noteq> None" by (simp add: purge_snapshots_proj)
  then obtain w' e' where res: "purge_snapshots self now w = (w', Some e')"
    by (cases "purge_snapshots self now w") auto
  then have "for_each (purge_camera self now) (camera_names self) ?w0 = (w', Some e')"
    by (simp add: purge_snapshots_def)
  from for_each_error_decomp [OF this] obtain cs1 c' cs2 w1 where
    cams: "camera_names self = cs1 @ c' # cs2"
      "for_each (purge_camera self now) cs1 ?w0 = (w1, None)"
      "purge_camera self now c' w1 = (w', Some e')"
    by blast
  from cams(3) have "for_each (purge_file self now) (glob_jpg (files w1) (snapshot_path self @ c')) w1 = (w', Some e')"
    by (simp add: purge_camera_def)
  from for_each_error_decomp [OF this] obtain fl1 bad' fl2 w2 where
    fls: "glob_jpg (files w1) (snapshot_path self @ c') = fl1 @ bad' # fl2"
      "for_each (purge_file self now) fl1 w1 = (w2, None)"
      "purge_file self now bad' w2 = (w', Some e')"
    by blast
  from fls(3) have "w2 = w'" "snapshot_date bad' = Inl e'"
    using thr by (auto simp add: purge_file_def split: sum.splits if_splits)
  then show ?thesis using res cams(1,2) fls(1,2) by blast
qed

text \<open>The same on a sample input.\<close>

theorem purge_parse_failure_propagates_witness:
  "snapshot_date ''./raw/Front_Door_2020010100.jpg'' = Inl ValueError
   \<and> snapshot_date ''./raw/Front_Door_20200101000100.jpg'' = Inr 63713433660000000
   \<and> 63713433660000000 < (63713433900000000 :: int)
   \<and> (\<exists>w' e'. purge_snapshots demo_self 63713520300000000 (fresh_world malformed_files) = (w', Some e'))
   \<and> purge_snapshots demo_self 63713520300000000 (fresh_world malformed_files)
     = (\<lparr>files = [''./raw/Front_Door_2020010100.jpg'', ''./raw/Front_Door_20200101000100.jpg''],
         logged = [(INFO, ''Purging Snapshots...''), (DEBUG, ''Purging ./raw/Front_Door_20200101000000.jpg'')],
         printed = [], calls = [], encoded = [], commands = []\<rparr>, Some ValueError)"
proof -
  let ?w = "fresh_world malformed_files"
  have c: "''Front_Door'' \<in> set (camera_names demo_self)" by (simp add: demo_self_def)
  have bad: "''./raw/Front_Door_2020010100.jpg'' \<in> set (glob_jpg (files ?w) (snapshot_path demo_self @ ''Front_Door''))"
    using malformed_glob by (simp add: fresh_world_def demo_self_def malformed_files_def)
  have thr: "minus_hours 63713520300000000 (purge_duration_hours demo_self) = Inr 63713433900000000"
    using demo_threshold by (simp add: demo_self_def)
  have "\<exists>w' e'. purge_snapshots demo_self 63713520300000000 ?w = (w', Some e')"
    using purge_parse_failure_propagates [OF c bad demo_dates(5) thr] by blast
  then show ?thesis using malformed_purge demo_dates(4,5) by simp
qed

text \<open>
  \<^bold>\<open>C9.\<close>  As stated the claim fails: \<^verbatim>\<open>get_snapshots\<close> assigns \<^verbatim>\<open>self.camera_names\<close>.
  With no configured name and three cameras discovered, the component after the call is
  not the component before it.
\<close>

theorem camera_names_reassigned:
  "fst (fst (get_snapshots (demo_self\<lparr>camera_names := []\<rparr>) demo_service ''20200101001500'' (fresh_world [])))
     \<noteq> demo_self\<lparr>camera_names := []\<rparr>"
proof -
  have "camera_names (fst (fst (get_snapshots (demo_self\<lparr>camera_names := []\<rparr>) demo_service
          ''20200101001500'' (fresh_world []))))
        = discovered [cam_timeout, cam_null, cam_ok]"
    by (simp add: get_snapshots_self get_snapshots_try_self demo_service_def effective_def)
  then have "camera_names (fst (fst (get_snapshots (demo_self\<lparr>camera_names := []\<rparr>) demo_service
          ''20200101001500'' (fresh_world [])))) \<noteq> []"
    by (simp add: discovered_def)
  then show ?thesis by (metis arlo_lapse.select_convs(3) arlo_lapse.update_convs(3) arlo_lapse.surjective)
qed

text \<open>
  \<^bold>\<open>C9, amended.\<close>  \<^verbatim>\<open>get_snapshots\<close> changes no attribute of the component but
  \<^verbatim>\<open>camera_names\<close>.  (\<^verbatim>\<open>purge_snapshots\<close> and \<^verbatim>\<open>make_lapse\<close> assign no attribute at all: they
  take the component and return none.)
\<close>

theorem get_snapshots_only_camera_names:
  "fst (fst (get_snapshots self arlo ns w))
     = self\<lparr>camera_names := camera_names (fst (fst (get_snapshots self arlo ns w)))\<rparr>"
  by (simp add: get_snapshots_self get_snapshots_try_self split: option.splits sum.splits)

text \<open>The same on a sample input.\<close>

theorem get_snapshots_only_camera_names_witness:
  "fst (fst (get_snapshots (demo_self\<lparr>camera_names := []\<rparr>) demo_service ''20200101001500'' (fresh_world [])))
     = demo_self\<lparr>camera_names := [''Back_Yard'', ''Garage'', ''Front_Door'']\<rparr>"
proof -
  have "camera_names (fst (fst (get_snapshots (demo_self\<lparr>camera_names := []\<rparr>) demo_service
          ''20200101001500'' (fresh_world []))))
        = [''Back_Yard'', ''Garage'', ''Front_Door'']"
    by (simp add: get_snapshots_self get_snapshots_try_self demo_service_def effective_def
        discovered_def cam_timeout_def cam_null_def cam_ok_def replace_def)
  then show ?thesis
    using get_snapshots_only_camera_names [of "demo_self\<lparr>camera_names := []\<rparr>" demo_service
        "''20200101001500''" "fresh_world []"]
    by simp
qed

text \<open>
  \<^bold>\<open>C10.\<close>  With a lapse duration of zero and a configured camera that has a still,
  \<^verbatim>\<open>make_lapse\<close> raises \<^verbatim>\<open>ZeroDivisionError\<close>, and it has written no file, called the
  encoder for nothing and run no command.
\<close>

theorem make_lapse_zero_duration:
  assumes "lapse_duration self = 0" and "c \<in> set (camera_names self)"
    and "glob_jpg (files w) (snapshot_path self @ c) \<noteq> []"
  shows "snd (make_lapse self imread w) = Some ZeroDivisionError
       \<and> files (fst (make_lapse self imread w)) = files w
       \<and> encoded (fst (make_lapse self imread w)) = encoded w
       \<and> commands (fst (make_lapse self imread w)) = commands w"
proof -
  let ?w0 = "logger INFO ''Making Time Lapses...'' w"
  have "glob_jpg (files ?w0) (snapshot_path self @ c) \<noteq> []" using assms(3) by simp
  from lapse_loop_zero_duration [OF assms(1,2) this] show ?thesis
    by (simp add: make_lapse_def)
qed

text \<open>The same on a sample input.\<close>

theorem make_lapse_zero_duration_witness:
  "snd (make_lapse (demo_self\<lparr>lapse_duration := 0\<rparr>) no_read_error (fresh_world demo_files)) = Some ZeroDivisionError
   \<and> files (fst (make_lapse (demo_self\<lparr>lapse_duration := 0\<rparr>) no_read_error (fresh_world demo_files))) = demo_files
   \<and> encoded (fst (make_lapse (demo_self\<lparr>lapse_duration := 0\<rparr>) no_read_error (fresh_world demo_files))) = []
   \<and> commands (fst (make_lapse (demo_self\<lparr>lapse_duration := 0\<rparr>) no_read_error (fresh_world demo_files))) = []"
proof -
  let ?s = "demo_self\<lparr>lapse_duration := 0\<rparr>"
  let ?w = "fresh_world demo_files"
  have d: "lapse_duration ?s = 0" by simp
  have c: "''Front_Door'' \<in> set (camera_names ?s)" by (simp add: demo_self_def)
  have g: "glob_jpg (files ?w) (snapshot_path ?s @ ''Front_Door'') \<noteq> []"
    using demo_glob by (simp add: fresh_world_def demo_self_def demo_files_def)
  show ?thesis
    using make_lapse_zero_duration [OF d c g, of no_read_error]
    by (simp add: fresh_world_def)
qed

end
